theory Spec2Isabelle
  imports Complex_Main "HOL-Library.Word" "HOL-Library.Monad_Syntax" "HOL-Library.Log_Nat"
begin

unbundle bit_operations_syntax

section \<open>nsf2wav: machine types and constants\<close>

text \<open>
  The program is the \<^verbatim>\<open>nsf2wav\<close> command-line tool: \<^verbatim>\<open>ParseOptions\<close>, the byte packers,
  \<^verbatim>\<open>write_wav_header\<close>, \<^verbatim>\<open>pack_frames\<close>, \<^verbatim>\<open>write_frames\<close> and \<^verbatim>\<open>main\<close>.

  Conventions of the embedding.
  \<^item> \<^verbatim>\<open>uint8_t\<close>, \<^verbatim>\<open>int16_t\<close>, \<^verbatim>\<open>uint16_t\<close>, \<^verbatim>\<open>uint32_t\<close> values that are packed into bytes,
    and the 64-bit channel bitsets, are words.
  \<^item> \<^verbatim>\<open>int\<close> and \<^verbatim>\<open>int32_t\<close> values are \<open>int\<close>; \<^verbatim>\<open>uint64_t\<close> and \<^verbatim>\<open>unsigned int\<close> counters
    are \<open>nat\<close>; every conversion and every operation that can wrap has its
    \<open>mod 2 ^ w\<close> written out.
  \<^item> A \<^verbatim>\<open>double\<close> is modelled by the real number it denotes. Every operation on
    doubles, and every conversion of an integer to \<^verbatim>\<open>double\<close>, rounds its exact result
    to IEEE-754 binary64 (\<open>round_double\<close>: to nearest, ties to even, with subnormals),
    one rounding per operation: no excess precision and no fused multiply-add.
    Infinities and NaN are outside the model: a result beyond the largest finite double
    stays a real number of that size, and each such result is converted to an unsigned
    integer next, which is undefined in the program and in the model alike.
  \<^item> Undefined behaviour (out-of-range array access, an out-of-range conversion from
    \<^verbatim>\<open>double\<close> to an unsigned integer, an out-of-range shift) is the value \<open>None\<close>, or
    the outcome \<open>Undefined\<close> of a whole run.
\<close>

type_synonym byte = "8 word"
type_synonym int16 = "16 word"

definition kFramesToBuffer :: nat where
  "kFramesToBuffer = 4096"

definition kMillisPerSecond :: nat where
  "kMillisPerSecond = 1000"

definition EXIT_SUCCESS :: int where
  "EXIT_SUCCESS = 0"

definition EXIT_FAILURE :: int where
  "EXIT_FAILURE = 1"

text \<open>\<^verbatim>\<open>EX_USAGE\<close> of \<^verbatim>\<open>sysexits.h\<close>.\<close>

definition EX_USAGE :: int where
  "EX_USAGE = 64"

text \<open>How a run of the program (or of a part of it) can stop early.\<close>

datatype halt =
    Exit int      \<comment> \<open>\<^verbatim>\<open>exit(code)\<close> or \<^verbatim>\<open>return code\<close> from \<^verbatim>\<open>main\<close>\<close>
  | Abort         \<comment> \<open>an uncaught C++ exception\<close>
  | Undefined     \<comment> \<open>undefined behaviour\<close>

text \<open>Conversion of an \<^verbatim>\<open>int\<close> to \<^verbatim>\<open>uint64_t\<close>.\<close>

definition to_uint64 :: "int \<Rightarrow> nat" where
  "to_uint64 x = nat (x mod 2 ^ 64)"

text \<open>
  Conversion of a \<^verbatim>\<open>double\<close> to an unsigned integer of \<open>w\<close> bits: the value is truncated
  towards zero; the behaviour is undefined when the truncated value is not representable.
\<close>

definition double_to_uint :: "nat \<Rightarrow> real \<Rightarrow> nat option" where
  "double_to_uint w x = (if - 1 < x \<and> x < 2 ^ w then Some (nat \<lfloor>x\<rfloor>) else None)"

text \<open>
  Rounding to binary64. \<open>round_even\<close> rounds a real number to the nearest integer, a tie
  to the even one. \<open>expo x\<close> is the binary exponent of a positive \<open>x\<close>, the \<open>e\<close> with
  \<open>2 ^ e \<le> x < 2 ^ (e + 1)\<close>, computed from the bit length of \<open>\<lfloor>x\<rfloor>\<close> or of the integer
  just below \<open>1 / x\<close>. \<open>ulp x\<close> is the distance between neighbouring doubles at \<open>x\<close>: the
  significand has 53 bits, and below \<open>2 ^ - 1022\<close> the doubles are subnormal.
\<close>

definition round_even :: "real \<Rightarrow> int" where
  "round_even y =
     (let n = \<lfloor>y\<rfloor>; d = y - of_int n
      in if d < 1 / 2 then n else if 1 / 2 < d then n + 1 else if even n then n else n + 1)"

definition expo :: "real \<Rightarrow> int" where
  "expo x = (if 1 \<le> x then bitlen \<lfloor>x\<rfloor> - 1 else - bitlen (\<lceil>1 / x\<rceil> - 1))"

definition ulp :: "real \<Rightarrow> real" where
  "ulp x = 2 powi (max (expo \<bar>x\<bar>) (- 1022) - 52)"

definition round_double :: "real \<Rightarrow> real" where
  "round_double x =
     (if x = 0 then 0 else sgn x * (of_int (round_even (\<bar>x\<bar> / ulp x)) * ulp x))"

text \<open>
  The operations of the program on doubles: the conversion of a \<^verbatim>\<open>uint64_t\<close>, the
  product, the sum and the quotient (by a divisor that is not zero).
\<close>

definition of_uint64 :: "nat \<Rightarrow> real" where
  "of_uint64 n = round_double (real n)"

definition dmul :: "real \<Rightarrow> real \<Rightarrow> real" where
  "dmul a b = round_double (a * b)"

definition dadd :: "real \<Rightarrow> real \<Rightarrow> real" where
  "dadd a b = round_double (a + b)"

definition ddiv :: "real \<Rightarrow> real \<Rightarrow> real" where
  "ddiv a b = round_double (a / b)"

text \<open>
  The expression \<^verbatim>\<open>1<<i\<close> with \<^verbatim>\<open>int\<close> operands, converted to \<^verbatim>\<open>uint64_t\<close>: the shift is
  done in 32 bits (two's complement, so \<^verbatim>\<open>1<<31\<close> is \<^verbatim>\<open>INT_MIN\<close>) and the conversion
  sign-extends. The shift count must be in \<open>0..31\<close>; the callers check it.
\<close>

definition shl1 :: "nat \<Rightarrow> 64 word" where
  "shl1 i = scast (push_bit i (1 :: 32 word))"

section \<open>Options and ParseOptions\<close>

record Nsf2WavOptions =
  length_ms :: int
  fade_ms :: int
  channels :: int
  samplerate :: real
  track :: int
  quiet :: bool
  mask_o :: "64 word"
  mute :: "64 word"
  trigger :: bool
  lengthForce :: bool

text \<open>
  The constructor \<^verbatim>\<open>Nsf2WavOptions(nsf)\<close>. \<^verbatim>\<open>nsf.default_playtime\<close>, \<^verbatim>\<open>nsf.default_fadetime\<close>
  and \<^verbatim>\<open>xgm::DEFAULT_RATE\<close> are declared outside the sources and are parameters.
\<close>

definition default_options :: "int \<Rightarrow> int \<Rightarrow> real \<Rightarrow> Nsf2WavOptions" where
  "default_options playtime fadetime rate =
     \<lparr> length_ms = playtime, fade_ms = fadetime, channels = 1, samplerate = rate,
       track = 1, quiet = False, mask_o = 0, mute = 0, trigger = False,
       lengthForce = False \<rparr>"

text \<open>
  One value per option character returned by \<^verbatim>\<open>getopt_long\<close>; numeric arguments are the
  values \<^verbatim>\<open>std::stoi\<close> and \<^verbatim>\<open>std::stod\<close> returned. \<open>Opt_other\<close> is any return value the
  \<^verbatim>\<open>switch\<close> sends to \<^verbatim>\<open>default\<close>.
\<close>

datatype cli_opt =
    Opt_q | Opt_l int | Opt_t int | Opt_y | Opt_f int | Opt_s real | Opt_c int
  | Opt_m int | Opt_r | Opt_w | Opt_u | Opt_h | Opt_other

fun ParseOptions :: "cli_opt list \<Rightarrow> Nsf2WavOptions \<Rightarrow> halt + Nsf2WavOptions" where
  "ParseOptions [] options = Inr options"
| "ParseOptions (Opt_q # rest) options = ParseOptions rest (options\<lparr>quiet := True\<rparr>)"
| "ParseOptions (Opt_l n # rest) options = ParseOptions rest (options\<lparr>length_ms := n\<rparr>)"
| "ParseOptions (Opt_t n # rest) options = ParseOptions rest (options\<lparr>track := n\<rparr>)"
| "ParseOptions (Opt_y # rest) options = ParseOptions rest (options\<lparr>lengthForce := True\<rparr>)"
| "ParseOptions (Opt_f n # rest) options = ParseOptions rest (options\<lparr>fade_ms := n\<rparr>)"
| "ParseOptions (Opt_s x # rest) options = ParseOptions rest (options\<lparr>samplerate := x\<rparr>)"
| "ParseOptions (Opt_c n # rest) options = ParseOptions rest (options\<lparr>channels := n\<rparr>)"
| "ParseOptions (Opt_m n # rest) options =
     (if 0 \<le> n \<and> n < 32
      then ParseOptions rest (options\<lparr>mask_o := mask_o options OR shl1 (nat n)\<rparr>)
      else Inl Undefined)"
| "ParseOptions (Opt_r # rest) options =
     ParseOptions rest (options\<lparr>mask_o := mask_o options XOR 0xFFFFFFFF\<rparr>)"
| "ParseOptions (Opt_w # rest) options = ParseOptions rest (options\<lparr>trigger := True\<rparr>)"
| "ParseOptions (Opt_u # rest) options =
     ParseOptions rest (options\<lparr>mute := mask_o options, mask_o := 0\<rparr>)"
| "ParseOptions (Opt_h # rest) options = Inl (Exit EXIT_SUCCESS)"
| "ParseOptions (Opt_other # rest) options = Inl (Exit EX_USAGE)"

section \<open>Byte packing\<close>

text \<open>Bounds-checked access to an array: an access outside the array is undefined.\<close>

definition poke :: "byte list \<Rightarrow> nat \<Rightarrow> byte \<Rightarrow> byte list option" where
  "poke d i v = (if i < length d then Some (d[i := v]) else None)"

definition peek :: "'a list \<Rightarrow> nat \<Rightarrow> 'a option" where
  "peek s i = (if i < length s then Some (s ! i) else None)"

text \<open>
  \<^verbatim>\<open>pack_int16le(d, n)\<close>, with the pointer \<^verbatim>\<open>d\<close> given as an array and an offset \<open>p\<close>
  into it. \<^verbatim>\<open>n >> 8\<close> is the arithmetic shift of the promoted value.
\<close>

definition pack_int16le :: "byte list \<Rightarrow> nat \<Rightarrow> int16 \<Rightarrow> byte list option" where
  "pack_int16le d p n =
     do { d1 \<leftarrow> poke d (p + 0) (ucast n);
          poke d1 (p + 1) (ucast (signed_drop_bit 8 n)) }"

text \<open>
  \<^verbatim>\<open>pack_uint16le\<close> and \<^verbatim>\<open>pack_uint32le\<close> are only applied to the local array \<^verbatim>\<open>tmp[4]\<close>;
  their model returns the bytes they store at \<^verbatim>\<open>tmp[0..]\<close>.
\<close>

definition pack_uint16le :: "16 word \<Rightarrow> byte list" where
  "pack_uint16le n = [ucast n, ucast (drop_bit 8 n)]"

definition pack_uint32le :: "32 word \<Rightarrow> byte list" where
  "pack_uint32le n = [ucast n, ucast (drop_bit 8 n), ucast (drop_bit 16 n), ucast (drop_bit 24 n)]"

text \<open>
  \<^verbatim>\<open>pack_frames\<close>: \<open>i\<close> is the loop counter and \<open>p\<close> the offset of the moving pointer
  \<^verbatim>\<open>d\<close>; \<open>chans\<close> is the parameter \<^verbatim>\<open>channels\<close>. The sample index \<^verbatim>\<open>(i*channels)+k\<close> is computed in \<^verbatim>\<open>unsigned int\<close>, the pointer
  increment \<^verbatim>\<open>sizeof(int16_t) * channels\<close> in \<^verbatim>\<open>size_t\<close>.
\<close>

function pack_frames_loop ::
  "byte list \<Rightarrow> int16 list \<Rightarrow> nat \<Rightarrow> int \<Rightarrow> nat \<Rightarrow> nat \<Rightarrow> byte list option" where
  "pack_frames_loop d s frameCount chans i p =
     (if i < frameCount then
        do { x \<leftarrow> peek s ((i * nat (chans mod 2 ^ 32)) mod 2 ^ 32 + 0);
             d1 \<leftarrow> pack_int16le d p x;
             d2 \<leftarrow> (if chans = 2
                    then do { y \<leftarrow> peek s (((i * nat (chans mod 2 ^ 32)) mod 2 ^ 32 + 1) mod 2 ^ 32);
                              pack_int16le d1 (p + 2) y }
                    else Some d1);
             pack_frames_loop d2 s frameCount chans (i + 1)
               (p + (2 * nat (chans mod 2 ^ 64)) mod 2 ^ 64) }
      else Some d)"
  by pat_completeness auto
termination
  by (relation "measure (\<lambda>(d, s, frameCount, chans, i, p). frameCount - i)") auto

definition pack_frames :: "byte list \<Rightarrow> int16 list \<Rightarrow> nat \<Rightarrow> int \<Rightarrow> byte list option" where
  "pack_frames d s frameCount chans = pack_frames_loop d s frameCount chans 0 0"

text \<open>
  The decoder of the container's sample layout (little-endian, two bytes per sample), as
  the format describes it; the program itself has no decoder.
\<close>

definition unpack_int16le :: "byte \<Rightarrow> byte \<Rightarrow> int16" where
  "unpack_int16le lo hi = ucast lo OR push_bit 8 (ucast hi)"

fun unpack_samples :: "byte list \<Rightarrow> int16 list" where
  "unpack_samples (lo # hi # bs) = unpack_int16le lo hi # unpack_samples bs"
| "unpack_samples bs = []"

text \<open>A little-endian 32-bit field read back as a number.\<close>

definition unpack_uint32le :: "byte list \<Rightarrow> nat" where
  "unpack_uint32le bs =
     unat (bs ! 0) + 2 ^ 8 * unat (bs ! 1) + 2 ^ 16 * unat (bs ! 2) + 2 ^ 24 * unat (bs ! 3)"

text \<open>The bytes of a sample sequence in that layout, and a block of bytes stored at an offset.\<close>

definition le_bytes :: "int16 list \<Rightarrow> byte list" where
  "le_bytes s = concat (map (\<lambda>n. [ucast n, ucast (signed_drop_bit 8 n)]) s)"

definition overwrite :: "'a list \<Rightarrow> nat \<Rightarrow> 'a list \<Rightarrow> 'a list" where
  "overwrite d p bs = take p d @ bs @ drop (p + length bs) d"

section \<open>The output file\<close>

text \<open>
  The \<^verbatim>\<open>FILE\<close> opened for writing: the bytes accepted so far and the number of bytes the
  device will still accept. \<^verbatim>\<open>fwrite(ptr, sz, nmemb, f)\<close> stores as many of the
  requested bytes as fit and returns the number of complete items stored.
\<close>

record sink =
  written :: "byte list"
  room :: nat

definition fwrite :: "byte list \<Rightarrow> nat \<Rightarrow> nat \<Rightarrow> sink \<Rightarrow> nat \<times> sink" where
  "fwrite ptr sz nmemb f =
     (let n = min (sz * nmemb) (room f)
      in (if sz = 0 then 0 else n div sz,
          f\<lparr>written := written f @ take n ptr, room := room f - n\<rparr>))"

text \<open>
  The body of \<^verbatim>\<open>write_wav_header\<close> is a sequence of statements
  \<^verbatim>\<open>if(fwrite(chunk,1,n,f) != n) return 0;\<close> closed by \<^verbatim>\<open>return 1\<close>. \<open>write_chunks\<close> runs
  such a sequence; a chunk \<open>None\<close> is one whose computation is undefined.
\<close>

fun write_chunks :: "sink \<Rightarrow> byte list option list \<Rightarrow> (int \<times> sink) option" where
  "write_chunks f [] = Some (1, f)"
| "write_chunks f (None # cs) = None"
| "write_chunks f (Some c # cs) =
     (case fwrite c 1 (length c) f of
        (n, f') \<Rightarrow> if n \<noteq> length c then Some (0, f') else write_chunks f' cs)"

definition ascii :: "string \<Rightarrow> byte list" where
  "ascii s = map of_char s"

definition wav_header_chunks :: "nat \<Rightarrow> Nsf2WavOptions \<Rightarrow> byte list option list" where
  "wav_header_chunks totalFrames options =
     (let dataSize = (word_of_nat
            (((totalFrames * 2) mod 2 ^ 64 * to_uint64 (channels options)) mod 2 ^ 64) :: 32 word)
      in [ Some (ascii ''RIFF''),
           Some (pack_uint32le (dataSize + 44 - 8)),
           Some (ascii ''WAVE''),
           Some (ascii ''fmt ''),
           Some (pack_uint32le 16),
           Some (pack_uint16le 1),
           Some (pack_uint16le (word_of_int (channels options))),
           map_option (\<lambda>n. pack_uint32le (word_of_nat n))
             (double_to_uint 32 (samplerate options)),
           map_option (\<lambda>n. pack_uint32le (word_of_nat n))
             (double_to_uint 32 (dmul (dmul (samplerate options) (of_int (channels options))) 2)),
           Some (pack_uint16le (word_of_nat ((to_uint64 (channels options) * 2) mod 2 ^ 64))),
           Some (pack_uint16le (word_of_nat (2 * 8))),
           Some (ascii ''data''),
           Some (pack_uint32le dataSize) ])"

definition write_wav_header :: "sink \<Rightarrow> nat \<Rightarrow> Nsf2WavOptions \<Rightarrow> (int \<times> sink) option" where
  "write_wav_header f totalFrames options = write_chunks f (wav_header_chunks totalFrames options)"

definition write_frames :: "sink \<Rightarrow> byte list \<Rightarrow> nat \<Rightarrow> int \<Rightarrow> int \<times> sink" where
  "write_frames f d frameCount chans =
     (case fwrite d ((2 * to_uint64 chans) mod 2 ^ 64) frameCount f of
        (n, f') \<Rightarrow> (if n = frameCount then 1 else 0, f'))"

section \<open>The external objects\<close>

text \<open>
  The classes \<^verbatim>\<open>xgm::NSF\<close>, \<^verbatim>\<open>xgm::NSFPlayerConfig\<close> and \<^verbatim>\<open>xgm::NSFPlayer\<close> are declared
  outside the sources. \<open>NSF\<close> holds the public fields of the loaded \<^verbatim>\<open>nsf\<close> object that
  \<^verbatim>\<open>main\<close> reads; \<^verbatim>\<open>nsfe_plst\<close> is a nullable pointer to an array of \<^verbatim>\<open>uint8_t\<close>.
\<close>

record nsfe_entry_t =
  tlbl :: string
  time :: int
  fade :: int

record NSF =
  playlist_mode :: bool
  song :: int
  nsfe_plst :: "byte list option"
  nsfe_plst_size :: int
  total_songs :: int
  nsfe_entry :: "nsfe_entry_t list"
  time_in_ms :: int
  fade_in_ms :: int

text \<open>
  The configuration object: its named values and its per-channel \<^verbatim>\<open>"VOL"\<close> values. A
  \<^verbatim>\<open>double\<close> that is not finite is \<open>DoubleV None\<close>.
\<close>

datatype cfg_value = IntV int | WordV "64 word" | DoubleV "real option"

record config =
  named :: "string \<rightharpoonup> cfg_value"
  VOL :: "nat \<rightharpoonup> int"

definition set_named :: "string \<Rightarrow> cfg_value \<Rightarrow> config \<Rightarrow> config" where
  "set_named k v cfg = cfg\<lparr>named := (named cfg)(k \<mapsto> v)\<rparr>"

text \<open>
  The hidden state of the \<^verbatim>\<open>nsf\<close> and \<^verbatim>\<open>player\<close> objects is a value of an arbitrary type
  \<open>'e\<close>; every member function that \<^verbatim>\<open>main\<close> calls, every field of theirs it assigns and
  every observable it reads after \<^verbatim>\<open>player.Load\<close> is a field of the record \<open>xgm\<close>.
  \<open>Render\<close> and \<open>LoadFile\<close> return what they store into the caller's memory.
\<close>

record 'e xgm =
  DEFAULT_RATE :: real
  default_playtime :: "'e \<Rightarrow> int"
  default_fadetime :: "'e \<Rightarrow> int"
  default_loopnum :: "'e \<Rightarrow> int"
  SetDefaults :: "int \<Rightarrow> int \<Rightarrow> int \<Rightarrow> 'e \<Rightarrow> 'e"
  LoadFile :: "string \<Rightarrow> 'e \<Rightarrow> NSF option \<times> 'e"
  set_loop_num :: "int \<Rightarrow> 'e \<Rightarrow> 'e"
  add_time_in_ms :: "int \<Rightarrow> 'e \<Rightarrow> 'e"
  set_fade_in_ms :: "int \<Rightarrow> 'e \<Rightarrow> 'e"
  GetFadeTime :: "'e \<Rightarrow> int"
  Notify :: "config \<Rightarrow> int \<Rightarrow> 'e \<Rightarrow> 'e"
  SetConfig :: "config \<Rightarrow> 'e \<Rightarrow> 'e"
  Load :: "'e \<Rightarrow> bool \<times> 'e"
  SetPlayFreq :: "real \<Rightarrow> 'e \<Rightarrow> 'e"
  SetChannels :: "int \<Rightarrow> 'e \<Rightarrow> 'e"
  SetSong :: "int \<Rightarrow> 'e \<Rightarrow> 'e"
  Reset :: "'e \<Rightarrow> 'e"
  IsFading :: "'e \<Rightarrow> bool"
  Skip :: "nat \<Rightarrow> 'e \<Rightarrow> 'e"
  playtime_detected :: "'e \<Rightarrow> bool"
  total_render :: "'e \<Rightarrow> nat"
  Render :: "int16 list \<Rightarrow> nat \<Rightarrow> 'e \<Rightarrow> int16 list \<times> 'e"

section \<open>main\<close>

text \<open>What the program prints; the text of a line is reduced to the numbers it shows.\<close>

datatype message =
    UsageText | LoadError | TrackNumberError | LengthWarning int | FadeWarning int
  | PlayerLoadError | OpenError
  | InfoLines | TrackLine int | LengthLine int | FadeLine int
  | DetectedLine nat | ProgressLine nat nat

text \<open>
  The result of a run: how it stopped, what it printed on \<^verbatim>\<open>stderr\<close> and \<^verbatim>\<open>stdout\<close>, the
  final state of the external objects and the output file (when one was opened).
\<close>

record 'e run =
  status :: halt
  err :: "message list"
  out :: "message list"
  state :: 'e
  outfile :: "sink option"

definition stop :: "halt \<Rightarrow> message list \<Rightarrow> message list \<Rightarrow> 'e \<Rightarrow> sink option \<Rightarrow> 'e run" where
  "stop h errs outs e f = \<lparr> status = h, err = errs, out = outs, state = e, outfile = f \<rparr>"

text \<open>The branch \<^verbatim>\<open>argc == 1\<close>: the lines printed before \<^verbatim>\<open>return EXIT_SUCCESS\<close>.\<close>

definition dump_info :: "NSF \<Rightarrow> Nsf2WavOptions \<Rightarrow> message list" where
  "dump_info nsf options =
     (if quiet options then []
      else InfoLines #
        (if playlist_mode nsf then [TrackLine (song nsf + 1)]
         else map (\<lambda>i. TrackLine (int i + 1))
                [0 ..< nat (if nsfe_plst_size nsf > 0 then nsfe_plst_size nsf
                            else total_songs nsf)]))"

text \<open>The track index \<^verbatim>\<open>i\<close>.\<close>

definition resolve_track :: "NSF \<Rightarrow> Nsf2WavOptions \<Rightarrow> halt + int" where
  "resolve_track nsf options =
     (if playlist_mode nsf then Inr (song nsf)
      else if track options \<le> 0 then Inl (Exit EXIT_FAILURE)
      else Inr (track options - 1))"

text \<open>The index \<^verbatim>\<open>nsfe_i\<close>, a \<^verbatim>\<open>uint8_t\<close>.\<close>

definition nsfe_index :: "NSF \<Rightarrow> int \<Rightarrow> nat option" where
  "nsfe_index nsf i =
     (case nsfe_plst nsf of
        Some plst \<Rightarrow>
          if \<not> playlist_mode nsf
          then (if 0 \<le> i then map_option unat (peek plst (nat i)) else None)
          else Some (nat (i mod 2 ^ 8))
      | None \<Rightarrow> Some (nat (i mod 2 ^ 8)))"

text \<open>The two \<^verbatim>\<open>if\<close> chains that settle \<^verbatim>\<open>options.length_ms\<close> and \<^verbatim>\<open>options.fade_ms\<close>.\<close>

definition resolve_length ::
  "NSF \<Rightarrow> nsfe_entry_t \<Rightarrow> Nsf2WavOptions \<Rightarrow> Nsf2WavOptions \<times> message list" where
  "resolve_length nsf entry options =
     (if \<not> playlist_mode nsf \<and> time entry \<ge> 0 then (options\<lparr>length_ms := time entry\<rparr>, [])
      else if time_in_ms nsf \<ge> 0 then (options\<lparr>length_ms := time_in_ms nsf\<rparr>, [])
      else if \<not> lengthForce options then (options, [LengthWarning (length_ms options)])
      else (options, []))"

definition resolve_fade ::
  "NSF \<Rightarrow> nsfe_entry_t \<Rightarrow> Nsf2WavOptions \<Rightarrow> Nsf2WavOptions \<times> message list" where
  "resolve_fade nsf entry options =
     (if \<not> playlist_mode nsf \<and> fade entry \<ge> 0 then (options\<lparr>fade_ms := fade entry\<rparr>, [])
      else if fade_in_ms nsf \<ge> 0 then (options\<lparr>fade_ms := fade_in_ms nsf\<rparr>, [])
      else (options, [FadeWarning (fade_ms options)]))"

definition resolve_times ::
  "NSF \<Rightarrow> nsfe_entry_t \<Rightarrow> Nsf2WavOptions \<Rightarrow> Nsf2WavOptions \<times> message list" where
  "resolve_times nsf entry options =
     (case resolve_length nsf entry options of
        (options1, w1) \<Rightarrow>
          (case resolve_fade nsf entry options1 of
             (options2, w2) \<Rightarrow> (options2, w1 @ w2)))"

text \<open>
  The precedence rule as the specification words it: a value is present when it is not
  negative; the per-track value wins over the global one, which wins over the default.
\<close>

definition present :: "int \<Rightarrow> int option" where
  "present v = (if 0 \<le> v then Some v else None)"

definition spec_precedence :: "int option \<Rightarrow> int option \<Rightarrow> int \<Rightarrow> int" where
  "spec_precedence per_track global dflt =
     (case per_track of
        Some v \<Rightarrow> v
      | None \<Rightarrow> (case global of Some g \<Rightarrow> g | None \<Rightarrow> dflt))"

text \<open>The configuration values set before \<^verbatim>\<open>player.Load\<close>.\<close>

definition initial_config :: "Nsf2WavOptions \<Rightarrow> config" where
  "initial_config options =
     (let c0 = set_named ''APU2_OPTION7'' (IntV 0)
                 (set_named ''APU2_OPTION5'' (IntV 0)
                   (set_named ''MASTER_VOLUME'' (IntV 256)
                     \<lparr> named = Map.empty, VOL = Map.empty \<rparr>))
      in if \<not> lengthForce options
         then set_named ''DETECT_INT'' (IntV 1000)
                (set_named ''LOOP_NUM'' (IntV 2)
                  (set_named ''AUTO_DETECT'' (IntV 1) c0))
         else c0)"

text \<open>The candidate frame count computed from \<^verbatim>\<open>length_ms\<close>, \<^verbatim>\<open>fade_ms\<close> and the rate.\<close>

definition naive_frames :: "Nsf2WavOptions \<Rightarrow> nat option" where
  "naive_frames options =
     do { frames1 \<leftarrow> double_to_uint 64
            (dmul (of_uint64 (to_uint64 (length_ms options))) (samplerate options));
          frames2 \<leftarrow> double_to_uint 64
            (dadd (of_uint64 frames1)
               (dmul (of_uint64 (to_uint64 (fade_ms options))) (samplerate options)));
          Some (frames2 div kMillisPerSecond) }"

text \<open>The loop \<^verbatim>\<open>while(frames && !player.fader.IsFading())\<close>; it returns the engine state.\<close>

function skip_loop :: "'e xgm \<Rightarrow> nat \<Rightarrow> 'e \<Rightarrow> 'e" where
  "skip_loop X frames e =
     (if frames \<noteq> 0 \<and> \<not> IsFading X e
      then (let fc = min frames kFramesToBuffer
            in skip_loop X (frames - fc) (Skip X fc e))
      else e)"
  by pat_completeness auto
termination
  by (relation "measure (\<lambda>(X, frames, e). frames)") (auto simp add: kFramesToBuffer_def)

text \<open>
  The block guarded by \<^verbatim>\<open>if (!options.lengthForce)\<close>: the frame count, the configuration,
  the engine state and the line printed.
\<close>

definition detect ::
  "'e xgm \<Rightarrow> Nsf2WavOptions \<Rightarrow> config \<Rightarrow> nat \<Rightarrow> 'e \<Rightarrow> (nat \<times> config \<times> 'e \<times> message list) option" where
  "detect X options cfg framesbackup e =
     (let e1 = skip_loop X framesbackup e;
          stop_sec = (\<lambda>e'. DoubleV
             (if samplerate options = 0 then None
              else Some (of_int \<lceil>ddiv (of_uint64 ((total_render X e'
                     + to_uint64 (GetFadeTime X e') div kMillisPerSecond) mod 2 ^ 64))
                   (samplerate options)\<rceil>)))
      in if playtime_detected X e1
         then do { frames \<leftarrow> double_to_uint 64
                     (dadd (of_uint64 (total_render X e1))
                        (ddiv (dmul (of_uint64 (to_uint64 (GetFadeTime X e1)))
                                 (samplerate options))
                           (of_uint64 kMillisPerSecond)));
                   let cfg1 = set_named ''LOOP_NUM'' (IntV 0)
                                (set_named ''AUTO_DETECT'' (IntV 0) cfg);
                       e2 = (if trigger options
                             then set_fade_in_ms X 0 (add_time_in_ms X (GetFadeTime X e1) e1)
                             else e1)
                   in Some (frames, set_named ''STOP_SEC'' (stop_sec e2) cfg1, e2,
                            [DetectedLine frames]) }
         else Some (framesbackup, set_named ''STOP_SEC'' (stop_sec e1) cfg, e1, []))"

text \<open>The frame count \<^verbatim>\<open>frames\<close> as it stands when the output file is opened.\<close>

definition resolve_frames ::
  "'e xgm \<Rightarrow> Nsf2WavOptions \<Rightarrow> config \<Rightarrow> 'e \<Rightarrow> (nat \<times> config \<times> 'e \<times> message list) option" where
  "resolve_frames X options cfg e =
     do { frames \<leftarrow> naive_frames options;
          if \<not> lengthForce options then detect X options cfg frames e
          else Some (frames, cfg, e, []) }"

text \<open>The per-channel volume loop and the configuration values set after detection.\<close>

definition channel_vol :: "64 word \<Rightarrow> nat \<Rightarrow> int" where
  "channel_vol m i = (if m AND shl1 i \<noteq> 0 then 0 else 128)"

definition set_volumes :: "Nsf2WavOptions \<Rightarrow> config \<Rightarrow> config" where
  "set_volumes options cfg =
     fold (\<lambda>i c. c\<lparr>VOL := (VOL c)(i \<mapsto> channel_vol (mute options) i)\<rparr>) [0 ..< 32] cfg"

definition final_config :: "Nsf2WavOptions \<Rightarrow> config \<Rightarrow> config" where
  "final_config options cfg =
     (let c1 = set_named ''TRIGGER'' (IntV (if trigger options then 1 else 0))
                 (set_named ''MASK'' (WordV (mask_o options)) cfg);
          c2 = (if trigger options
                then set_named ''FDS_OPTION0'' (IntV 96000)
                       (set_named ''N163_OPTION0'' (IntV 0)
                         (set_named ''MMC5_OPTION0'' (IntV 0)
                           (set_named ''APU2_OPTION4'' (IntV 0)
                             (set_named ''APU1_OPTION2'' (IntV 0) c1))))
                else c1)
      in set_volumes options c2)"

text \<open>
  The loop \<^verbatim>\<open>while(frames)\<close> that renders, packs and writes; the value of \<^verbatim>\<open>write_frames\<close>
  is not used by \<^verbatim>\<open>main\<close>. The engine must hand back the sample array at its size.
\<close>

function render_loop ::
  "'e xgm \<Rightarrow> int \<Rightarrow> nat \<Rightarrow> int16 list \<Rightarrow> byte list \<Rightarrow> sink \<Rightarrow> 'e \<Rightarrow> message list
   \<Rightarrow> (sink \<times> 'e \<times> message list) option" where
  "render_loop X chans frames buf pac f e outs =
     (if frames \<noteq> 0
      then (let fc = min frames kFramesToBuffer;
                outs1 = outs @ [ProgressLine ((frames + total_render X e) mod 2 ^ 64) frames]
            in case Render X buf fc e of
                 (buf1, e1) \<Rightarrow>
                   if length buf1 \<noteq> length buf then None
                   else (case pack_frames pac buf1 fc chans of
                           None \<Rightarrow> None
                         | Some pac1 \<Rightarrow>
                             (case write_frames f pac1 fc chans of
                                (ok, f1) \<Rightarrow>
                                  render_loop X chans (frames - fc) buf1 pac1 f1 e1 outs1)))
      else Some (f, e, outs))"
  by pat_completeness auto
termination
  by (relation "measure (\<lambda>(X, chans, frames, buf, pac, f, e, outs). frames)")
    (auto simp add: kFramesToBuffer_def)

text \<open>
  \<^verbatim>\<open>main\<close> from the track selection on (an output path was given). The two buffers are
  allocated before the file is loaded; their initial contents are indeterminate in the
  program and zero here.
\<close>

definition convert ::
  "'e xgm \<Rightarrow> (string \<Rightarrow> sink option) \<Rightarrow> Nsf2WavOptions \<Rightarrow> NSF \<Rightarrow> string \<Rightarrow> 'e \<Rightarrow> 'e run" where
  "convert X fopen options0 nsf path e =
     (case resolve_track nsf options0 of
        Inl h \<Rightarrow> stop h [TrackNumberError] [] e None
      | Inr i \<Rightarrow>
          (case nsfe_index nsf i \<bind> peek (nsfe_entry nsf) of
             None \<Rightarrow> stop Undefined [] [] e None
           | Some entry \<Rightarrow>
               (case resolve_times nsf entry options0 of
                  (options, errs) \<Rightarrow>
                    (let outs = (if quiet options then []
                                 else [TrackLine (i + 1), LengthLine (length_ms options),
                                       FadeLine (fade_ms options)]);
                         cfg = initial_config options;
                         e1 = (if \<not> lengthForce options then set_loop_num X 2 e else e)
                     in case Load X (SetConfig X cfg e1) of
                          (False, e2) \<Rightarrow>
                            stop (Exit EXIT_FAILURE) (errs @ [PlayerLoadError]) outs e2 None
                        | (True, e2) \<Rightarrow>
                            (let e3 = Reset X (SetSong X i (SetChannels X (channels options)
                                        (SetPlayFreq X (samplerate options) e2)))
                             in case resolve_frames X options cfg e3 of
                                  None \<Rightarrow> stop Undefined errs outs e3 None
                                | Some (frames, cfg1, e4, outs1) \<Rightarrow>
                                    (let cfg2 = final_config options cfg1;
                                         e5 = Reset X (SetConfig X cfg2 (Notify X cfg2 (- 1) e4))
                                     in case fopen path of
                                          None \<Rightarrow>
                                            stop (Exit 1) (errs @ [OpenError]) (outs @ outs1) e5 None
                                        | Some f \<Rightarrow>
                                            (case write_wav_header f frames options of
                                               None \<Rightarrow> stop Undefined errs (outs @ outs1) e5 (Some f)
                                             | Some (ok, f1) \<Rightarrow>
                                                 (case render_loop X (channels options) frames
                                                         (replicate (kFramesToBuffer * nat (channels options)) 0)
                                                         (replicate (kFramesToBuffer * nat (channels options) * 2) 0)
                                                         f1 e5 (outs @ outs1) of
                                                    None \<Rightarrow> stop Undefined errs (outs @ outs1) e5 (Some f1)
                                                  | Some (f2, e6, outs2) \<Rightarrow>
                                                      stop (Exit EXIT_SUCCESS) errs outs2 e6 (Some f2)))))))))"

text \<open>
  \<^verbatim>\<open>main\<close>: \<open>opts\<close> are the options \<^verbatim>\<open>getopt_long\<close> finds, \<open>argv\<close> the arguments left after
  them, \<open>fopen\<close> the file system's answer to \<^verbatim>\<open>fopen(path, "wb")\<close>. A negative channel
  count makes the array sizes overflow, and \<^verbatim>\<open>new\<close> throws.
\<close>

definition main ::
  "'e xgm \<Rightarrow> (string \<Rightarrow> sink option) \<Rightarrow> cli_opt list \<Rightarrow> string list \<Rightarrow> 'e \<Rightarrow> 'e run" where
  "main X fopen opts argv e =
     (case ParseOptions opts
             (default_options (default_playtime X e) (default_fadetime X e) (DEFAULT_RATE X)) of
        Inl h \<Rightarrow>
          stop h (if h = Exit EX_USAGE then [UsageText] else [])
                 (if h = Exit EXIT_SUCCESS then [UsageText] else []) e None
      | Inr options \<Rightarrow>
          (let e1 = SetDefaults X (length_ms options) (fade_ms options) (default_loopnum X e) e
           in if length argv < 1 \<or> length argv > 2
              then stop (Exit EX_USAGE) [UsageText] [] e1 None
              else if channels options < 0 then stop Abort [] [] e1 None
              else (case LoadFile X (argv ! 0) e1 of
                      (None, e2) \<Rightarrow> stop (Exit 1) [LoadError] [] e2 None
                    | (Some nsf, e2) \<Rightarrow>
                        if length argv = 1
                        then stop (Exit EXIT_SUCCESS) [] (dump_info nsf options) e2 None
                        else convert X fopen options nsf (argv ! 1) e2)))"

section \<open>A simulated engine\<close>

text \<open>
  Concrete inputs for runs of the program. The state of the simulated engine is the
  number of frames skipped since the last \<open>Reset\<close>; it is fading once \<open>K\<close> frames have
  been skipped, always reports a detected loop, \<open>K\<close> rendered frames and a fade time of
  \<open>T\<close> ms, and renders silence. \<open>LoadFile\<close> answers \<open>nsf\<close> for every path.
\<close>

definition sim_xgm :: "nat \<Rightarrow> int \<Rightarrow> NSF option \<Rightarrow> nat xgm" where
  "sim_xgm K T nsf =
     \<lparr> DEFAULT_RATE = 48000,
       default_playtime = (\<lambda>e. 300000),
       default_fadetime = (\<lambda>e. 5000),
       default_loopnum = (\<lambda>e. 2),
       SetDefaults = (\<lambda>l f n e. e),
       LoadFile = (\<lambda>path e. (nsf, e)),
       set_loop_num = (\<lambda>n e. e),
       add_time_in_ms = (\<lambda>t e. e),
       set_fade_in_ms = (\<lambda>t e. e),
       GetFadeTime = (\<lambda>e. T),
       Notify = (\<lambda>c i e. e),
       SetConfig = (\<lambda>c e. e),
       Load = (\<lambda>e. (True, e)),
       SetPlayFreq = (\<lambda>r e. e),
       SetChannels = (\<lambda>n e. e),
       SetSong = (\<lambda>n e. e),
       Reset = (\<lambda>e. 0),
       IsFading = (\<lambda>e. K \<le> e),
       Skip = (\<lambda>n e. e + n),
       playtime_detected = (\<lambda>e. True),
       total_render = (\<lambda>e. K),
       Render = (\<lambda>buf fc e. (buf, e)) \<rparr>"

text \<open>A loaded file with one track and no embedded or global times.\<close>

definition sim_nsf :: NSF where
  "sim_nsf =
     \<lparr> playlist_mode = False, song = 0, nsfe_plst = None, nsfe_plst_size = 0,
       total_songs = 1,
       nsfe_entry = replicate 256 \<lparr> tlbl = [], time = - 1, fade = - 1 \<rparr>,
       time_in_ms = - 1, fade_in_ms = - 1 \<rparr>"

text \<open>A file system in which every path opens a file that accepts \<open>n\<close> bytes.\<close>

definition sim_fopen :: "nat \<Rightarrow> string \<Rightarrow> sink option" where
  "sim_fopen n path = Some \<lparr> written = [], room = n \<rparr>"

text \<open>The loops are unfolded by hand, one iteration at a time.\<close>

declare pack_frames_loop.simps [simp del]

declare skip_loop.simps [simp del]

declare render_loop.simps [simp del]

section \<open>Rounding to binary64\<close>

lemma round_even_of_int [simp]: "round_even (of_int n) = n"
  by (simp add: round_even_def)





lemma powi_pos: "0 \<le> b \<Longrightarrow> (2::real) powi b = 2 ^ nat b"
  by (simp add: power_int_def)

lemma powi_neg: "0 \<le> b \<Longrightarrow> (2::real) powi (- b) = 1 / 2 ^ nat b"
  by (simp only: power_int_minus powi_pos inverse_eq_divide)

lemma int_pow_le_real: "(2::int) ^ n \<le> k \<Longrightarrow> (2::real) ^ n \<le> of_int k"
proof -
  assume "(2::int) ^ n \<le> k"
  then have "real_of_int (2 ^ n) \<le> real_of_int k" by (simp only: of_int_le_iff)
  then show ?thesis by simp
qed

lemma int_le_pow_real: "k \<le> (2::int) ^ n \<Longrightarrow> of_int k \<le> (2::real) ^ n"
proof -
  assume "k \<le> (2::int) ^ n"
  then have "real_of_int k \<le> real_of_int (2 ^ n)" by (simp only: of_int_le_iff)
  then show ?thesis by simp
qed

lemma bitlen_ge1: "0 < (n::int) \<Longrightarrow> 1 \<le> bitlen n"
  using bitlen_nonneg [of n] bitlen_eq_zero_iff [of n] by linarith

lemma expo_bounds_ge1:
  assumes "1 \<le> x"
  shows "2 powi (expo x) \<le> x \<and> x < 2 powi (expo x + 1)"
proof -
  let ?n = "\<lfloor>x\<rfloor>"
  define b where "b = bitlen ?n"
  have n: "0 < ?n" using assms by simp
  then have b1: "1 \<le> b" unfolding b_def by (rule bitlen_ge1)
  from bitlen_bounds [OF n]
  have lo: "2 ^ nat (b - 1) \<le> ?n" and hi: "?n < 2 ^ nat b" unfolding b_def by simp_all
  have "(2::real) ^ nat (b - 1) \<le> of_int ?n" using lo by (rule int_pow_le_real)
  moreover have "of_int ?n \<le> x" by simp
  ultimately have l: "(2::real) ^ nat (b - 1) \<le> x" by linarith
  have "?n + 1 \<le> 2 ^ nat b" using hi by simp
  then have "real_of_int (?n + 1) \<le> 2 ^ nat b" by (rule int_le_pow_real)
  moreover have "x < real_of_int (?n + 1)" by simp
  ultimately have h: "x < 2 ^ nat b" by linarith
  have e: "expo x = b - 1" using assms by (simp add: expo_def b_def)
  have "(2::real) powi (b - 1) = 2 ^ nat (b - 1)" using b1 by (simp add: powi_pos)
  moreover have "(2::real) powi (b - 1 + 1) = 2 ^ nat b" using b1 by (simp add: powi_pos)
  ultimately show ?thesis unfolding e using l h by simp
qed

lemma expo_bounds_lt1:
  assumes "0 < x" "x < 1"
  shows "2 powi (expo x) \<le> x \<and> x < 2 powi (expo x + 1)"
proof -
  let ?y = "1 / x"
  let ?c = "\<lceil>?y\<rceil> - 1"
  define b where "b = bitlen ?c"
  have y1: "1 < ?y" using assms by simp
  then have c: "0 < ?c" by (simp add: less_ceiling_iff)
  then have b1: "1 \<le> b" unfolding b_def by (rule bitlen_ge1)
  from bitlen_bounds [OF c]
  have lo: "2 ^ nat (b - 1) \<le> ?c" and hi: "?c < 2 ^ nat b" unfolding b_def by simp_all
  have cy1: "real_of_int ?c < ?y" using ceiling_correct [of ?y] by simp
  have cy2: "?y \<le> real_of_int ?c + 1" using le_of_int_ceiling [of ?y] by simp
  have "(2::real) ^ nat (b - 1) \<le> of_int ?c" using lo by (rule int_pow_le_real)
  then have l: "(2::real) ^ nat (b - 1) < ?y" using cy1 by linarith
  have "?c + 1 \<le> 2 ^ nat b" using hi by simp
  then have "real_of_int (?c + 1) \<le> 2 ^ nat b" by (rule int_le_pow_real)
  then have "real_of_int ?c + 1 \<le> 2 ^ nat b" by (simp only: of_int_add of_int_1)
  then have h: "?y \<le> 2 ^ nat b" using cy2 by linarith
  have e: "expo x = - b" using assms by (simp add: expo_def b_def)
  have lower: "1 / 2 ^ nat b \<le> x"
  proof -
    have "1 \<le> x * 2 ^ nat b" using h assms(1) by (simp add: field_simps)
    then show ?thesis by (simp add: field_simps)
  qed
  have upper: "x < 1 / 2 ^ nat (b - 1)"
  proof -
    have "x * 2 ^ nat (b - 1) < 1" using l assms(1) by (simp add: field_simps)
    then show ?thesis by (simp add: field_simps)
  qed
  have p1: "(2::real) powi (- b) = 1 / 2 ^ nat b"
    using b1 by (simp add: powi_neg)
  have "- b + 1 = - (b - 1)" by simp
  then have p2: "(2::real) powi (- b + 1) = 1 / 2 ^ nat (b - 1)"
    using b1 powi_neg [of "b - 1"] by simp
  show ?thesis unfolding e p1 p2 using lower upper by simp
qed

lemma expo_bounds:
  "0 < x \<Longrightarrow> 2 powi (expo x) \<le> x \<and> x < 2 powi (expo x + 1)"
  using expo_bounds_ge1 [of x] expo_bounds_lt1 [of x] by (cases "1 \<le> x") simp_all


lemma ulp_abs: "ulp \<bar>x\<bar> = ulp x"
  by (simp add: ulp_def)

lemma ulp_small:
  assumes "0 < x" "x * 2 ^ k < 2 ^ N" "N \<le> 53" "k \<le> N + 1021"
  obtains n where "ulp x = 1 / 2 ^ n" "k + 53 \<le> N + n"
proof -
  let ?e = "expo x"
  have eb: "2 powi ?e \<le> x" using expo_bounds [OF assms(1)] by simp
  have xlt: "x < 2 ^ N / 2 ^ k" using assms(2) by (simp add: field_simps)
  have e: "?e \<le> int N - int k - 1"
  proof (rule ccontr)
    assume "\<not> ?e \<le> int N - int k - 1"
    then have "int N - int k \<le> ?e" by simp
    then have "(2::real) powi (int N - int k) \<le> 2 powi ?e"
      by (intro power_int_increasing) simp_all
    moreover have "(2::real) powi (int N - int k) = 2 ^ N / 2 ^ k"
      by (simp add: power_int_diff)
    ultimately show False using eb xlt by linarith
  qed
  define E where "E = max ?e (- 1022) - 52"
  have E: "E \<le> int N - int k - 53" using e assms(4) unfolding E_def by simp
  then have E0: "0 \<le> - E" using assms(3) by simp
  have "ulp x = 2 powi (- (- E))" using assms(1) by (simp add: ulp_def E_def)
  also have "\<dots> = 1 / 2 ^ nat (- E)" using E0 by (rule powi_neg)
  finally have u: "ulp x = 1 / 2 ^ nat (- E)" .
  have "k + 53 \<le> N + nat (- E)" using E E0 by linarith
  with u show ?thesis by (rule that)
qed

lemma round_double_pos:
  assumes "0 < x" "ulp x = 1 / 2 ^ n"
  shows "round_double x = of_int (round_even (x * 2 ^ n)) / 2 ^ n"
  using assms by (simp add: round_double_def)

lemma round_double_0 [simp]: "round_double 0 = 0"
  by (simp add: round_double_def)

lemma round_double_dyadic_pos:
  assumes "0 < x" "x * 2 ^ k \<in> \<int>" "x * 2 ^ k < 2 ^ 53" "k \<le> 1074"
  shows "round_double x = x"
proof -
  obtain n where u: "ulp x = 1 / 2 ^ n" and kn: "k + 53 \<le> 53 + n"
    using ulp_small [OF assms(1,3)] assms(4) by auto
  from assms(2) obtain z where z: "x * 2 ^ k = of_int z" by (auto elim: Ints_cases)
  have "x * 2 ^ n = x * 2 ^ k * 2 ^ (n - k)"
    using kn by (simp add: power_add [symmetric])
  also have "\<dots> = of_int (z * 2 ^ (n - k))" by (simp add: z)
  finally have xn: "x * 2 ^ n = of_int (z * 2 ^ (n - k))" .
  then have "round_even (x * 2 ^ n) = z * 2 ^ (n - k)" by (simp only: round_even_of_int)
  then have "round_double x = of_int (z * 2 ^ (n - k)) / 2 ^ n"
    using round_double_pos [OF assms(1) u] by simp
  also have "\<dots> = x * 2 ^ n / 2 ^ n" by (simp only: xn)
  finally show ?thesis by simp
qed

lemma round_double_minus: "round_double (- x) = - round_double x"
  by (simp add: round_double_def ulp_def)

lemma round_double_dyadic:
  assumes "x * 2 ^ k \<in> \<int>" "\<bar>x\<bar> * 2 ^ k < 2 ^ 53" "k \<le> 1074"
  shows "round_double x = x"
proof -
  consider "x = 0" | "0 < x" | "x < 0" by linarith
  then show ?thesis
  proof cases
    case 1
    then show ?thesis by simp
  next
    case 2
    then show ?thesis using assms round_double_dyadic_pos [of x k] by simp
  next
    case 3
    have "- x * 2 ^ k \<in> \<int>" using assms(1) Ints_minus [of "x * 2 ^ k"] by simp
    then have "round_double (- x) = - x"
      using 3 assms round_double_dyadic_pos [of "- x" k] by simp
    then show ?thesis by (simp add: round_double_minus)
  qed
qed

lemma round_double_of_nat: "n < 2 ^ 53 \<Longrightarrow> round_double (real n) = real n"
proof -
  assume "n < 2 ^ 53"
  then have "real n < 2 ^ 53" by (metis of_nat_less_iff of_nat_numeral of_nat_power)
  then show ?thesis using round_double_dyadic [of "real n" 0] by simp
qed

lemma round_double_of_int: "\<bar>n\<bar> < 2 ^ 53 \<Longrightarrow> round_double (of_int n) = of_int n"
proof -
  assume "\<bar>n\<bar> < 2 ^ 53"
  then have "real_of_int \<bar>n\<bar> < 2 ^ 53" by (metis of_int_less_iff of_int_numeral of_int_power)
  then show ?thesis using round_double_dyadic [of "of_int n" 0] by simp
qed


lemma round_double_numeral:
  "(numeral n :: nat) < 2 ^ 53 \<Longrightarrow> round_double (numeral n) = numeral n"
  using round_double_of_nat [of "numeral n"] by simp

lemma of_uint64_small: "n < 2 ^ 53 \<Longrightarrow> of_uint64 n = real n"
  by (simp add: of_uint64_def round_double_of_nat)

lemma of_uint64_int:
  "0 \<le> x \<Longrightarrow> x < 2 ^ 31 \<Longrightarrow> of_uint64 (to_uint64 x) = real_of_int x"
proof -
  assume x: "0 \<le> x" "x < 2 ^ 31"
  then have "to_uint64 x = nat x" by (simp add: to_uint64_def)
  moreover have "nat x < 2 ^ 53" using x by (simp add: nat_less_iff)
  ultimately show ?thesis using x by (simp add: of_uint64_small)
qed

text \<open>
  Rounding a value whose binary exponent is known: between \<open>2 ^ n\<close> and \<open>2 ^ (n + 1)\<close>
  the doubles are \<open>2 ^ (n - 52)\<close> apart.
\<close>

lemma expo_unique:
  assumes "2 powi e \<le> x" "x < 2 powi (e + 1)"
  shows "expo x = e"
proof -
  have "(0::real) < 2 powi e" by simp
  then have pos: "0 < x" using assms(1) by linarith
  from expo_bounds [OF pos]
  have a: "2 powi (expo x) \<le> x" and b: "x < 2 powi (expo x + 1)" by simp_all
  have "expo x < e + 1"
  proof (rule ccontr)
    assume "\<not> expo x < e + 1"
    then have "e + 1 \<le> expo x" by simp
    then have "(2::real) powi (e + 1) \<le> 2 powi (expo x)"
      by (intro power_int_increasing) simp_all
    then show False using a assms(2) by linarith
  qed
  moreover have "e < expo x + 1"
  proof (rule ccontr)
    assume "\<not> e < expo x + 1"
    then have "expo x + 1 \<le> e" by simp
    then have "(2::real) powi (expo x + 1) \<le> 2 powi e"
      by (intro power_int_increasing) simp_all
    then show False using b assms(1) by linarith
  qed
  ultimately show ?thesis by simp
qed

lemma round_double_below:
  assumes "2 ^ n \<le> x" "x < 2 ^ (n + 1)" "n \<le> 52"
  shows "round_double x = of_int (round_even (x * 2 ^ (52 - n))) / 2 ^ (52 - n)"
proof -
  have "(0::real) < 2 ^ n" by simp
  then have pos: "0 < x" using assms(1) by linarith
  have "(2::real) powi (int n) \<le> x" "x < 2 powi (int n + 1)"
    using assms(1,2) powi_pos [of "int n"] powi_pos [of "int n + 1"]
    by (simp_all add: nat_add_distrib)
  then have "expo x = int n" by (rule expo_unique)
  then have "ulp x = 2 powi (- (52 - int n))" using pos by (simp add: ulp_def)
  also have "\<dots> = 1 / 2 ^ nat (52 - int n)" using assms(3) by (intro powi_neg) simp
  also have "nat (52 - int n) = 52 - n" by simp
  finally show ?thesis using pos by (rule round_double_pos [rotated])
qed

lemma round_double_above:
  assumes "2 ^ n \<le> x" "x < 2 ^ (n + 1)" "52 \<le> n"
  shows "round_double x = of_int (round_even (x / 2 ^ (n - 52))) * 2 ^ (n - 52)"
proof -
  have "(0::real) < 2 ^ n" by simp
  then have pos: "0 < x" using assms(1) by linarith
  have "(2::real) powi (int n) \<le> x" "x < 2 powi (int n + 1)"
    using assms(1,2) powi_pos [of "int n"] powi_pos [of "int n + 1"]
    by (simp_all add: nat_add_distrib)
  then have "expo x = int n" by (rule expo_unique)
  then have "ulp x = 2 powi (int n - 52)" using pos by (simp add: ulp_def)
  also have "\<dots> = 2 ^ nat (int n - 52)" using assms(3) by (intro powi_pos) simp
  also have "nat (int n - 52) = n - 52" by simp
  finally have "ulp x = 2 ^ (n - 52)" .
  then show ?thesis using pos by (simp add: round_double_def)
qed

section \<open>The frame encoder\<close>

subsection \<open>Storing bytes and blocks\<close>

lemma unpack_pack: "unpack_int16le (ucast n) (ucast (signed_drop_bit 8 n)) = (n::int16)"
  unfolding unpack_int16le_def
  apply (rule bit_eqI)
  apply (auto simp add: bit_simps)
  subgoal for na by (cases "na < 8") simp_all
  done

lemma length_le_bytes: "length (le_bytes s) = 2 * length s"
  by (induction s) (simp_all add: le_bytes_def)

lemma le_bytes_append: "le_bytes (xs @ ys) = le_bytes xs @ le_bytes ys"
  by (simp add: le_bytes_def)

lemma unpack_le_bytes: "unpack_samples (le_bytes s) = s"
  by (induction s) (simp_all add: le_bytes_def unpack_pack)

lemma length_overwrite: "p + length bs \<le> length d \<Longrightarrow> length (overwrite d p bs) = length d"
  by (simp add: overwrite_def)

lemma overwrite_overwrite:
  "p + length a + length b \<le> length d \<Longrightarrow>
   overwrite (overwrite d p a) (p + length a) b = overwrite d p (a @ b)"
  by (cases a) (auto simp add: overwrite_def min_def add.commute add.left_commute)

lemma overwrite_Nil: "overwrite d p [] = d"
  by (simp add: overwrite_def)

lemma poke_overwrite: "p < length d \<Longrightarrow> poke d p v = Some (overwrite d p [v])"
  by (simp add: poke_def overwrite_def upd_conv_take_nth_drop)

lemma pack_int16le_overwrite:
  assumes "p + 2 \<le> length d"
  shows "pack_int16le d p n = Some (overwrite d p [ucast n, ucast (signed_drop_bit 8 n)])"
proof -
  have "poke d p (ucast n) = Some (overwrite d p [ucast n])"
    using assms by (simp add: poke_overwrite)
  moreover have "poke (overwrite d p [ucast n]) (p + 1) (ucast (signed_drop_bit 8 n))
      = Some (overwrite (overwrite d p [ucast n]) (p + 1) [ucast (signed_drop_bit 8 n)])"
    using assms by (simp add: poke_overwrite length_overwrite)
  moreover have "overwrite (overwrite d p [ucast n]) (p + 1) [ucast (signed_drop_bit 8 n)]
      = overwrite d p [ucast n, ucast (signed_drop_bit 8 n)]"
    using assms overwrite_overwrite [of p "[ucast n]" "[ucast (signed_drop_bit 8 n)]" d]
    by simp
  ultimately show ?thesis by (simp add: pack_int16le_def)
qed

lemma take_frame_mono: "i < length s \<Longrightarrow> take (Suc 0) (drop i s) = [s ! i]"
  by (metis Cons_nth_drop_Suc take0 take_Suc_Cons)

lemma take_frame_stereo:
  "2 * i + 1 < length s \<Longrightarrow> take 2 (drop (2 * i) s) = [s ! (2 * i), s ! (2 * i + 1)]"
proof -
  assume a: "2 * i + 1 < length s"
  then have "drop (2 * i) s = s ! (2 * i) # s ! (2 * i + 1) # drop (2 * i + 2) s"
    by (metis Cons_nth_drop_Suc Suc_eq_plus1 add_2_eq_Suc' add_lessD1)
  then show ?thesis by simp
qed

lemma pack_frames_loop_done:
  "\<not> i < frameCount \<Longrightarrow> pack_frames_loop d s frameCount chans i p = Some d"
  by (simp add: pack_frames_loop.simps)

lemma pack_frames_loop_mono:
  assumes "i \<le> frameCount" "frameCount \<le> length s" "2 * frameCount \<le> length d"
    "frameCount < 2 ^ 32"
  shows "pack_frames_loop d s frameCount 1 i (2 * i)
         = Some (overwrite d (2 * i) (le_bytes (take (frameCount - i) (drop i s))))"
  using assms
proof (induction "frameCount - i" arbitrary: i d)
  case 0
  then show ?case by (simp add: pack_frames_loop_done overwrite_Nil le_bytes_def)
next
  case (Suc k)
  then have lt: "i < frameCount" by simp
  let ?B = "[ucast (s ! i), ucast (signed_drop_bit 8 (s ! i))] :: byte list"
  let ?d = "overwrite d (2 * i) ?B"
  have len: "length ?d = length d" using lt Suc.prems by (simp add: length_overwrite)
  have step: "pack_frames_loop d s frameCount 1 i (2 * i)
      = pack_frames_loop ?d s frameCount 1 (i + 1) (2 * (i + 1))"
    using lt Suc.prems
    by (subst pack_frames_loop.simps) (simp add: peek_def pack_int16le_overwrite)
  have ih: "pack_frames_loop ?d s frameCount 1 (i + 1) (2 * (i + 1))
      = Some (overwrite ?d (2 * (i + 1)) (le_bytes (take (frameCount - (i + 1)) (drop (i + 1) s))))"
    using Suc.hyps(1) [of "i + 1" ?d] Suc.hyps(2) Suc.prems lt len by simp
  have split: "take (frameCount - i) (drop i s)
      = [s ! i] @ take (frameCount - (i + 1)) (drop (i + 1) s)"
  proof -
    have "frameCount - i = 1 + (frameCount - (i + 1))" using lt by simp
    then have "take (frameCount - i) (drop i s)
        = take 1 (drop i s) @ take (frameCount - (i + 1)) (drop 1 (drop i s))"
      by (simp only: take_add)
    then show ?thesis using lt Suc.prems by (simp add: take_frame_mono)
  qed
  have lenR: "length (le_bytes (take (frameCount - (i + 1)) (drop (i + 1) s)))
      = 2 * (frameCount - (i + 1))"
    using lt Suc.prems by (simp add: length_le_bytes)
  have "2 * i + length ?B + 2 * (frameCount - (i + 1)) \<le> length d"
    using lt Suc.prems by simp
  then have ov: "overwrite ?d (2 * (i + 1)) (le_bytes (take (frameCount - (i + 1)) (drop (i + 1) s)))
      = overwrite d (2 * i) (?B @ le_bytes (take (frameCount - (i + 1)) (drop (i + 1) s)))"
    using overwrite_overwrite [of "2 * i" ?B
        "le_bytes (take (frameCount - (i + 1)) (drop (i + 1) s))" d] lenR
    by simp
  have B: "le_bytes [s ! i] = ?B" by (simp add: le_bytes_def)
  have "?B @ le_bytes (take (frameCount - (i + 1)) (drop (i + 1) s))
      = le_bytes (take (frameCount - i) (drop i s))"
    by (simp only: split le_bytes_append B)
  with step ih ov show ?case by simp
qed

lemma pack_frames_loop_stereo:
  assumes "i \<le> frameCount" "2 * frameCount \<le> length s" "4 * frameCount \<le> length d"
    "2 * frameCount < 2 ^ 32" "p = 4 * i"
  shows "pack_frames_loop d s frameCount 2 i p
         = Some (overwrite d p (le_bytes (take (2 * (frameCount - i)) (drop (2 * i) s))))"
  using assms
proof (induction "frameCount - i" arbitrary: i p d)
  case 0
  then show ?case by (simp add: pack_frames_loop_done overwrite_Nil le_bytes_def)
next
  case (Suc k)
  then have lt: "i < frameCount" by simp
  note p = \<open>p = 4 * i\<close>
  let ?x = "s ! (i * 2)" and ?y = "s ! (i * 2 + 1)"
  let ?B1 = "[ucast ?x, ucast (signed_drop_bit 8 ?x)] :: byte list"
  let ?B2 = "[ucast ?y, ucast (signed_drop_bit 8 ?y)] :: byte list"
  let ?d = "overwrite d p (?B1 @ ?B2)"
  let ?R = "le_bytes (take (2 * (frameCount - (i + 1))) (drop (2 * (i + 1)) s))"
  have len: "length ?d = length d" using lt Suc.prems by (simp add: length_overwrite)
  have first: "pack_int16le d p ?x = Some (overwrite d p ?B1)"
    using lt Suc.prems by (simp add: pack_int16le_overwrite)
  have second: "pack_int16le (overwrite d p ?B1) (p + 2) ?y = Some ?d"
  proof -
    have "pack_int16le (overwrite d p ?B1) (p + 2) ?y
        = Some (overwrite (overwrite d p ?B1) (p + 2) ?B2)"
      using lt Suc.prems by (simp add: pack_int16le_overwrite length_overwrite)
    moreover have "overwrite (overwrite d p ?B1) (p + 2) ?B2 = ?d"
      using overwrite_overwrite [of p ?B1 ?B2 d] lt Suc.prems by simp
    ultimately show ?thesis by simp
  qed
  have idx: "(i * nat (2 mod 2 ^ 32)) mod 2 ^ 32 + 0 = i * 2"
    "((i * nat (2 mod 2 ^ 32)) mod 2 ^ 32 + 1) mod 2 ^ 32 = i * 2 + 1"
    "(2 * nat (2 mod 2 ^ 64)) mod 2 ^ 64 = (4::nat)"
    using lt Suc.prems by simp_all
  have inb: "i * 2 < length s" "i * 2 + 1 < length s"
    using lt Suc.prems by simp_all
  have step: "pack_frames_loop d s frameCount 2 i p
      = pack_frames_loop ?d s frameCount 2 (i + 1) (p + 4)"
    by (subst pack_frames_loop.simps)
      (simp only: idx lt if_True peek_def inb first second bind.bind_lunit refl)
  have ih: "pack_frames_loop ?d s frameCount 2 (i + 1) (p + 4)
      = Some (overwrite ?d (p + 4) ?R)"
    using Suc.hyps(1) [of "i + 1" ?d "p + 4"] Suc.hyps(2) Suc.prems lt len by simp
  have split: "take (2 * (frameCount - i)) (drop (2 * i) s)
      = [?x, ?y] @ take (2 * (frameCount - (i + 1))) (drop (2 * (i + 1)) s)"
  proof -
    have "2 * (frameCount - i) = 2 + 2 * (frameCount - (i + 1))" using lt by simp
    then have "take (2 * (frameCount - i)) (drop (2 * i) s)
        = take 2 (drop (2 * i) s) @ take (2 * (frameCount - (i + 1))) (drop 2 (drop (2 * i) s))"
      by (simp only: take_add)
    moreover have "take 2 (drop (2 * i) s) = [?x, ?y]"
      using lt Suc.prems take_frame_stereo [of i s] by (simp add: mult.commute)
    ultimately show ?thesis by (simp add: add.commute)
  qed
  have lenR: "length ?R = 4 * (frameCount - (i + 1))"
    using lt Suc.prems by (simp add: length_le_bytes)
  have pre: "p + length (?B1 @ ?B2) + length ?R \<le> length d"
    unfolding lenR using lt Suc.prems by simp
  have l4: "p + length (?B1 @ ?B2) = p + 4" by simp
  have ov: "overwrite ?d (p + 4) ?R = overwrite d p ((?B1 @ ?B2) @ ?R)"
    using overwrite_overwrite [OF pre] unfolding l4 .
  have B: "le_bytes [?x, ?y] = ?B1 @ ?B2" by (simp add: le_bytes_def)
  have "(?B1 @ ?B2) @ ?R = le_bytes (take (2 * (frameCount - i)) (drop (2 * i) s))"
    by (simp only: split le_bytes_append B)
  with step ih ov show ?case by simp
qed

lemma pack_frames_eq:
  assumes "chans = 1 \<or> chans = 2"
    and "frameCount * nat chans \<le> length s"
    and "2 * (frameCount * nat chans) \<le> length d"
    and "frameCount * nat chans < 2 ^ 32"
  shows "pack_frames d s frameCount chans
         = Some (le_bytes (take (frameCount * nat chans) s)
                 @ drop (2 * (frameCount * nat chans)) d)"
proof -
  from assms(1) show ?thesis
  proof
    assume c: "chans = 1"
    then show ?thesis
      using assms(2-4) pack_frames_loop_mono [of 0 frameCount s d]
      by (simp add: pack_frames_def overwrite_def length_le_bytes min_def)
  next
    assume c: "chans = 2"
    then show ?thesis
      using assms(2-4) pack_frames_loop_stereo [of 0 frameCount s d 0]
      by (simp add: pack_frames_def overwrite_def length_le_bytes min_def mult.commute)
  qed
qed

text \<open>
  C6. For every sequence of 16-bit samples that forms whole frames of one or two
  channels, \<^verbatim>\<open>pack_frames\<close> followed by the decoder of the little-endian two-byte layout
  gives the sequence back. The sequence fits the encoder's 32-bit sample index, and the
  byte array is at least as long as the encoding.
\<close>

theorem pack_frames_roundtrip:
  assumes "chans = 1 \<or> chans = 2"
    and "length s = frameCount * nat chans"
    and "length s < 2 ^ 32"
    and "2 * length s \<le> length d"
  shows "\<exists>d'. pack_frames d s frameCount chans = Some d'
              \<and> unpack_samples (take (2 * length s) d') = s"
proof -
  have "pack_frames d s frameCount chans = Some (le_bytes s @ drop (2 * length s) d)"
    using pack_frames_eq [of chans frameCount s d] assms by simp
  then show ?thesis
    by (simp add: length_le_bytes unpack_le_bytes)
qed

text \<open>Two stereo frames, with negative samples among them.\<close>

theorem pack_frames_roundtrip_witness:
  "pack_frames (replicate 8 0) [1, - 2, 300, - 400] 2 2 \<noteq> None
   \<and> unpack_samples (take 8 (the (pack_frames (replicate 8 0) [1, - 2, 300, - 400] 2 2)))
       = [1, - 2, 300, - 400]"
  using pack_frames_roundtrip [of 2 "[1, - 2, 300, - 400]" 2 "replicate 8 0"]
  by auto

text \<open>
  C10. For one or two channels and a chunk of at most 4096 frames, \<^verbatim>\<open>pack_frames\<close> on
  the two buffers of \<open>4096 * channels\<close> samples and \<open>4096 * channels * 2\<close> bytes stays
  inside both: it is defined, it stores exactly the \<open>frameCount * channels * 2\<close> bytes
  that encode the first \<open>frameCount * channels\<close> samples and leaves the rest of the byte
  buffer as it was. The same call is defined on buffers cut to exactly these sizes, so no
  access goes beyond them.
\<close>

theorem pack_frames_within_buffers:
  assumes "chans = 1 \<or> chans = 2"
    and "frameCount \<le> kFramesToBuffer"
    and "length s = kFramesToBuffer * nat chans"
    and "length d = kFramesToBuffer * nat chans * 2"
  shows "pack_frames d s frameCount chans
           = Some (le_bytes (take (frameCount * nat chans) s)
                   @ drop (frameCount * nat chans * 2) d)
         \<and> length (le_bytes (take (frameCount * nat chans) s)) = frameCount * nat chans * 2
         \<and> pack_frames (take (frameCount * nat chans * 2) d) (take (frameCount * nat chans) s)
              frameCount chans
           = Some (le_bytes (take (frameCount * nat chans) s))"
proof -
  let ?n = "frameCount * nat chans"
  have n: "?n \<le> length s" "?n * 2 \<le> length d"
    using assms by simp_all
  have "?n \<le> 4096 * 2"
    using assms(1,2) by (auto simp add: kFramesToBuffer_def)
  then have small: "?n < 2 ^ 32" by simp
  have "pack_frames d s frameCount chans = Some (le_bytes (take ?n s) @ drop (?n * 2) d)"
    using pack_frames_eq [of chans frameCount s d] assms(1) n small
    by (simp add: mult.commute)
  moreover have "length (le_bytes (take ?n s)) = ?n * 2"
    using n by (simp add: length_le_bytes)
  moreover have "pack_frames (take (?n * 2) d) (take ?n s) frameCount chans
      = Some (le_bytes (take ?n s))"
    using pack_frames_eq [of chans frameCount "take ?n s" "take (?n * 2) d"] assms(1) n small
    by (simp add: mult.commute)
  ultimately show ?thesis by simp
qed

text \<open>One mono frame in the buffers of a mono run.\<close>

theorem pack_frames_within_buffers_witness:
  "(1::nat) \<le> kFramesToBuffer
   \<and> pack_frames (replicate 8192 0) (replicate 4096 7) 1 1
       = Some (le_bytes (take 1 (replicate 4096 7)) @ drop 2 (replicate 8192 0))"
  using pack_frames_within_buffers [of 1 1 "replicate 4096 7" "replicate 8192 0"]
  by (simp add: kFramesToBuffer_def)

section \<open>Channel masks and volumes\<close>

lemma shl1_0: "shl1 0 = 1"
  by (simp add: shl1_def)

lemma shl1_31: "shl1 31 = 0xFFFFFFFF80000000"
  by (simp add: shl1_def)

lemma bit_shl1: "i < 31 \<Longrightarrow> bit (shl1 i) n \<longleftrightarrow> n = i"
  unfolding shl1_def
  by (auto simp add: bit_simps)

lemma shl1_eq_push_bit: "i < 31 \<Longrightarrow> shl1 i = push_bit i 1"
  by (rule bit_eqI) (auto simp add: bit_shl1 bit_simps)

lemma bit_xor_low32:
  "bit ((m :: 64 word) XOR 0xFFFFFFFF) n \<longleftrightarrow> (if n < 32 then \<not> bit m n else bit m n)"
proof -
  have e: "(0xFFFFFFFF :: 64 word) = mask 32" by (simp add: mask_eq_exp_minus_1)
  show ?thesis unfolding e bit_xor_iff bit_mask_iff by (auto dest: bit_imp_le_length)
qed

text \<open>
  C2, as the program has it. \<^verbatim>\<open>--mask_reverse\<close> complements bits 0 to 31 of the 64-bit
  working mask and leaves bits 32 to 63 as they were; starting from the empty mask,
  \<^verbatim>\<open>--mask=0\<close> followed by \<^verbatim>\<open>--mask_reverse\<close> gives \<^verbatim>\<open>0xFFFFFFFE\<close>, the complement of
  \<open>{0}\<close> among the channels 0 to 31.
\<close>

theorem mask_reverse_low_32_bits:
  "(\<exists>options'. ParseOptions [Opt_r] options = Inr options'
       \<and> (\<forall>n. bit (mask_o options') n
                \<longleftrightarrow> (if n < 32 then \<not> bit (mask_o options) n else bit (mask_o options) n)))
   \<and> map_sum id mask_o (ParseOptions [Opt_m 0, Opt_r] (options\<lparr>mask_o := 0\<rparr>)) = Inr 0xFFFFFFFE"
  by (simp add: bit_xor_low32 shl1_0)

theorem mask_reverse_low_32_bits_witness:
  "map_sum id mask_o (ParseOptions [Opt_m 0, Opt_r] (default_options 0 0 48000\<lparr>mask_o := 0\<rparr>))
     = Inr 0xFFFFFFFE"
  using mask_reverse_low_32_bits [of "default_options 0 0 48000"]
  by simp

text \<open>
  C2 as the claim states it fails: after \<^verbatim>\<open>--mask=0 --mask_reverse\<close> on the default
  options the mask is \<^verbatim>\<open>0xFFFFFFFE\<close>, which is not the complement of \<open>{0}\<close> over the 64
  bits of the mask field.
\<close>

theorem mask_reverse_not_full_width:
  "map_sum id mask_o (ParseOptions [Opt_m 0, Opt_r] (default_options 0 0 48000)) = Inr 0xFFFFFFFE
   \<and> (0xFFFFFFFE :: 64 word) \<noteq> NOT 1"
  by (simp add: default_options_def shl1_0)

lemma channel_vol_below_31:
  "i < 31 \<Longrightarrow> channel_vol m i = (if bit m i then 0 else 128)"
proof -
  assume i: "i < 31"
  have "m AND push_bit i 1 \<noteq> 0 \<longleftrightarrow> bit m i"
    by (simp add: bit_iff_and_push_bit_not_eq_0)
  then show ?thesis using i by (simp add: channel_vol_def shl1_eq_push_bit)
qed

lemma VOL_fold:
  "VOL (fold (\<lambda>i c. c\<lparr>VOL := (VOL c)(i \<mapsto> g i)\<rparr>) xs cfg) i
     = (if i \<in> set xs then Some (g i) else VOL cfg i)"
  by (induction xs arbitrary: cfg) auto

lemma VOL_set_volumes:
  "VOL (set_volumes options cfg) i
     = (if i < 32 then Some (channel_vol (mute options) i) else VOL cfg i)"
  by (simp add: set_volumes_def VOL_fold)

lemma VOL_final_config:
  "VOL (final_config options cfg) i
     = (if i < 32 then Some (channel_vol (mute options) i) else VOL cfg i)"
  by (simp add: final_config_def Let_def VOL_set_volumes set_named_def)

text \<open>
  C9 at the options \<^verbatim>\<open>--mask=31 --mask_reverse --mute\<close>: the committed mute set is
  \<^verbatim>\<open>0xFFFFFFFF7FFFFFFF\<close>, bit 31 of it is clear, and the volume configured for channel 31
  is 0. The test mask \<^verbatim>\<open>1<<31\<close> is computed in \<^verbatim>\<open>int\<close> and sign-extended, so it covers
  bits 31 to 63.
\<close>

theorem volume_of_channel_31:
  "(case ParseOptions [Opt_m 31, Opt_r, Opt_u] (default_options 0 0 48000) of
      Inl h \<Rightarrow> False
    | Inr options \<Rightarrow>
        mute options = 0xFFFFFFFF7FFFFFFF
        \<and> \<not> bit (mute options) 31
        \<and> VOL (final_config options (initial_config options)) 31 = Some 0)"
  by (simp add: default_options_def shl1_31 VOL_final_config channel_vol_def)

section \<open>The container header\<close>

lemma fwrite_bytes_fit:
  "length c \<le> room f \<Longrightarrow>
   fwrite c (Suc 0) (length c) f = (length c, f\<lparr>written := written f @ c, room := room f - length c\<rparr>)"
  by (simp add: fwrite_def Let_def min_def)

lemma write_chunks_fit:
  "length (concat cs) \<le> room f \<Longrightarrow>
   write_chunks f (map Some cs)
     = Some (1, f\<lparr>written := written f @ concat cs, room := room f - length (concat cs)\<rparr>)"
proof (induction cs arbitrary: f)
  case Nil
  then show ?case by simp
next
  case (Cons c cs)
  let ?f = "f\<lparr>written := written f @ c, room := room f - length c\<rparr>"
  have "length (concat cs) \<le> room ?f" using Cons.prems by simp
  from Cons.IH [OF this] show ?case
    using Cons.prems by (simp add: fwrite_bytes_fit)
qed

lemma length_pack_uint32le: "length (pack_uint32le n) = 4"
  by (simp add: pack_uint32le_def)

lemma length_pack_uint16le: "length (pack_uint16le n) = 2"
  by (simp add: pack_uint16le_def)

lemma length_ascii: "length (ascii s) = length s"
  by (simp add: ascii_def)

lemma le32_digits:
  fixes a :: nat
  assumes "a < 2 ^ 32"
  shows "a mod 256 + 2 ^ 8 * (a div 256 mod 256) + 2 ^ 16 * (a div 65536 mod 256)
         + 2 ^ 24 * (a div 16777216 mod 256) = a"
proof -
  define q1 where "q1 = a div 256"
  define q2 where "q2 = q1 div 256"
  define q3 where "q3 = q2 div 256"
  have e2: "a div 65536 = q2"
    unfolding q2_def q1_def by (simp add: div_mult2_eq [symmetric])
  have e3: "a div 16777216 = q3"
    unfolding q3_def q2_def q1_def by (simp add: div_mult2_eq [symmetric])
  have "q3 < 256" using assms unfolding e3 [symmetric] by simp
  then have m3: "q3 mod 256 = q3" by simp
  have d0: "a = a mod 256 + 256 * q1" unfolding q1_def by simp
  have d1: "q1 = q1 mod 256 + 256 * q2" unfolding q2_def by simp
  have d2: "q2 = q2 mod 256 + 256 * q3" unfolding q3_def by simp
  have "a mod 256 + 256 * (q1 mod 256) + 65536 * (q2 mod 256) + 16777216 * q3 = a"
    using d0 d1 d2 by linarith
  then show ?thesis
    unfolding e2 e3 m3 by (simp add: q1_def)
qed

lemma unpack_pack_uint32le: "unpack_uint32le (pack_uint32le n) = unat n"
proof -
  have lt: "unat n < 2 ^ 32" using unsigned_less [of n] by simp
  have b0: "unat (ucast n :: byte) = unat n mod 256"
    by (simp add: unsigned_ucast_eq take_bit_eq_mod)
  have b1: "unat (ucast (drop_bit 8 n) :: byte) = unat n div 256 mod 256"
    by (simp only: unsigned_ucast_eq unat_drop_bit_eq) (simp add: take_bit_eq_mod drop_bit_eq_div)
  have b2: "unat (ucast (drop_bit 16 n) :: byte) = unat n div 65536 mod 256"
    by (simp only: unsigned_ucast_eq unat_drop_bit_eq) (simp add: take_bit_eq_mod drop_bit_eq_div)
  have b3: "unat (ucast (drop_bit 24 n) :: byte) = unat n div 16777216 mod 256"
    by (simp only: unsigned_ucast_eq unat_drop_bit_eq) (simp add: take_bit_eq_mod drop_bit_eq_div)
  have p: "pack_uint32le n ! 0 = ucast n" "pack_uint32le n ! 1 = ucast (drop_bit 8 n)"
    "pack_uint32le n ! 2 = ucast (drop_bit 16 n)" "pack_uint32le n ! 3 = ucast (drop_bit 24 n)"
    by (simp_all add: pack_uint32le_def)
  have "unpack_uint32le (pack_uint32le n)
      = unat n mod 256 + 2 ^ 8 * (unat n div 256 mod 256) + 2 ^ 16 * (unat n div 65536 mod 256)
        + 2 ^ 24 * (unat n div 16777216 mod 256)"
    unfolding unpack_uint32le_def p b0 b1 b2 b3 ..
  also have "\<dots> = unat n" by (rule le32_digits [OF lt])
  finally show ?thesis .
qed

lemma dataSize_mod:
  "0 \<le> ch \<Longrightarrow>
   unat (word_of_nat (((totalFrames * 2) mod 2 ^ 64 * to_uint64 ch) mod 2 ^ 64) :: 32 word)
     = (totalFrames * nat ch * 2) mod 2 ^ 32"
proof -
  assume ch: "0 \<le> ch"
  have d: "(2::nat) ^ 32 dvd 2 ^ 64" by (simp add: le_imp_power_dvd)
  have c: "to_uint64 ch = nat ch mod 2 ^ 64"
    using ch by (simp add: to_uint64_def nat_mod_distrib)
  have "(((totalFrames * 2) mod 2 ^ 64 * to_uint64 ch) mod 2 ^ 64) mod 2 ^ 32
      = ((totalFrames * 2) mod 2 ^ 64 * (nat ch mod 2 ^ 64)) mod 2 ^ 32"
    unfolding c using d by (rule mod_mod_cancel)
  also have "\<dots> = (((totalFrames * 2) mod 2 ^ 64 * (nat ch mod 2 ^ 64)) mod 2 ^ 64) mod 2 ^ 32"
    using d by (simp only: mod_mod_cancel)
  also have "\<dots> = ((totalFrames * 2 * nat ch) mod 2 ^ 64) mod 2 ^ 32"
    by (simp only: mod_mult_eq)
  also have "\<dots> = (totalFrames * 2 * nat ch) mod 2 ^ 32"
    using d by (rule mod_mod_cancel)
  finally show ?thesis
    by (simp add: unat_of_nat mult.commute mult.left_commute)
qed

lemma write_wav_header_fit:
  assumes "0 \<le> channels options"
    and "double_to_uint 32 (samplerate options) \<noteq> None"
    and "double_to_uint 32 (dmul (dmul (samplerate options) (of_int (channels options))) 2)
         \<noteq> None"
    and "44 \<le> room f"
  shows "\<exists>hdr. write_wav_header f totalFrames options
                 = Some (1, f\<lparr>written := written f @ hdr, room := room f - 44\<rparr>)
               \<and> length hdr = 44
               \<and> unpack_uint32le (drop 40 hdr)
                   = (totalFrames * nat (channels options) * 2) mod 2 ^ 32"
proof -
  obtain sr br where sr: "double_to_uint 32 (samplerate options) = Some sr"
    and br: "double_to_uint 32 (dmul (dmul (samplerate options) (of_int (channels options))) 2)
        = Some br"
    using assms(2,3) by auto
  let ?ds = "word_of_nat (((totalFrames * 2) mod 2 ^ 64 * to_uint64 (channels options)) mod 2 ^ 64) :: 32 word"
  let ?cs = "[ascii ''RIFF'', pack_uint32le (?ds + 44 - 8), ascii ''WAVE'', ascii ''fmt '',
              pack_uint32le 16, pack_uint16le 1, pack_uint16le (word_of_int (channels options)),
              pack_uint32le (word_of_nat sr), pack_uint32le (word_of_nat br),
              pack_uint16le (word_of_nat ((to_uint64 (channels options) * 2) mod 2 ^ 64)),
              pack_uint16le (word_of_nat (2 * 8)), ascii ''data'', pack_uint32le ?ds]"
  have chunks: "wav_header_chunks totalFrames options = map Some ?cs"
    by (simp add: wav_header_chunks_def Let_def sr br)
  have len: "length (concat ?cs) = 44"
    by (simp add: length_pack_uint32le length_pack_uint16le length_ascii)
  have last: "drop 40 (concat ?cs) = pack_uint32le ?ds"
    by (simp add: length_pack_uint32le length_pack_uint16le length_ascii)
  have "write_wav_header f totalFrames options
      = Some (1, f\<lparr>written := written f @ concat ?cs, room := room f - 44\<rparr>)"
    unfolding write_wav_header_def chunks
    using write_chunks_fit [of ?cs f] assms(4) len by simp
  moreover have "unpack_uint32le (drop 40 (concat ?cs))
      = (totalFrames * nat (channels options) * 2) mod 2 ^ 32"
    unfolding last unpack_pack_uint32le using assms(1) by (rule dataSize_mod)
  ultimately show ?thesis using len by blast
qed

text \<open>
  C5, as the program has it. For every total frame count and every channel count that is
  not negative, when the two sample-rate fields are representable and the file accepts
  the 44 bytes, \<^verbatim>\<open>write_wav_header\<close> returns 1 and appends exactly 44 bytes, and the
  payload-length field (the last four bytes, little-endian) holds
  \<open>total_frame_count * channel_count * 2\<close> reduced modulo \<open>2 ^ 32\<close>.
\<close>

theorem wav_header_data_size:
  assumes "0 \<le> channels options"
    and "double_to_uint 32 (samplerate options) \<noteq> None"
    and "double_to_uint 32 (dmul (dmul (samplerate options) (of_int (channels options))) 2)
         \<noteq> None"
    and "44 \<le> room f"
  shows "\<exists>hdr. write_wav_header f totalFrames options
                 = Some (1, f\<lparr>written := written f @ hdr, room := room f - 44\<rparr>)
               \<and> length hdr = 44
               \<and> unpack_uint32le (drop 40 hdr)
                   = (totalFrames * nat (channels options) * 2) mod 2 ^ 32"
  using assms by (rule write_wav_header_fit)

text \<open>Mono, 44100 Hz, 44100 frames: the field holds 88200.\<close>

theorem wav_header_data_size_witness:
  "(0::int) \<le> channels (default_options 0 0 44100)
   \<and> map_option (\<lambda>(r, f). (r, length (written f), unpack_uint32le (drop 40 (written f))))
        (write_wav_header \<lparr>written = [], room = 100\<rparr> 44100 (default_options 0 0 44100))
       = Some (1, 44, 88200)"
  using wav_header_data_size [of "default_options 0 0 44100" "\<lparr>written = [], room = 100\<rparr>" 44100]
  by (auto simp add: default_options_def double_to_uint_def dmul_def round_double_numeral)

text \<open>
  C5 as the claim states it fails: for \<open>2 ^ 31\<close> mono frames the field holds 0, not
  \<open>2 ^ 31 * 1 * 2\<close>.
\<close>

theorem wav_header_data_size_wraps:
  "map_option (\<lambda>(r, f). (r, length (written f), unpack_uint32le (drop 40 (written f))))
     (write_wav_header \<lparr>written = [], room = 100\<rparr> 2147483648 (default_options 0 0 44100))
     = Some (1, 44, 0)
   \<and> (2147483648 :: nat) * 1 * 2 \<noteq> 0"
  using write_wav_header_fit [of "default_options 0 0 44100" "\<lparr>written = [], room = 100\<rparr>" 2147483648]
  by (auto simp add: default_options_def double_to_uint_def dmul_def round_double_numeral)

section \<open>The frame count\<close>

lemma double_to_uint_Some:
  "0 \<le> x \<Longrightarrow> x < 2 ^ w \<Longrightarrow> double_to_uint w x = Some (nat \<lfloor>x\<rfloor>)"
  by (simp add: double_to_uint_def)

lemma floor_div_nat:
  fixes x :: real
  assumes "0 \<le> x"
  shows "nat \<lfloor>x\<rfloor> div 1000 = nat \<lfloor>x / 1000\<rfloor>"
proof -
  have "\<lfloor>x / 1000\<rfloor> = \<lfloor>x\<rfloor> div 1000"
    using floor_divide_real_eq_div [of 1000 x] by simp
  moreover have "0 \<le> \<lfloor>x\<rfloor>" using assms by simp
  ultimately show ?thesis by (simp add: nat_div_distrib)
qed

lemma le_times_pow2: "0 \<le> (x::real) \<Longrightarrow> x \<le> x * 2 ^ k"
proof -
  assume "0 \<le> x"
  moreover have "(1::real) \<le> 2 ^ k" by simp
  ultimately have "x * 1 \<le> x * 2 ^ k" by (rule mult_left_mono [rotated])
  then show ?thesis by simp
qed

lemma less_thousand_floor:
  fixes p :: real
  shows "p < 1000 * (of_int \<lfloor>p / 1000\<rfloor> + 1)"
proof -
  have "p / 1000 < q \<Longrightarrow> p < 1000 * q" for q :: real by simp
  moreover have "p / 1000 < of_int \<lfloor>p / 1000\<rfloor> + 1" by linarith
  ultimately show ?thesis by blast
qed

lemma pow2_in_Ints: "(2::real) ^ k \<in> \<int>"
  by (simp add: Ints_power)

text \<open>
  The candidate frame count where the double arithmetic is exact: the sample rate has
  \<open>k\<close> binary fraction digits and all values stay below \<open>2 ^ 53\<close> in units of
  \<open>2 ^ - k\<close>. The first product is truncated before the second is added.
\<close>

lemma naive_frames_exact:
  assumes L: "0 \<le> length_ms options" "length_ms options < 2 ^ 31"
    and F: "0 \<le> fade_ms options" "fade_ms options < 2 ^ 31"
    and r: "0 \<le> samplerate options"
    and dy: "samplerate options * 2 ^ k \<in> \<int>" and k: "k \<le> 1074"
    and range: "real_of_int (length_ms options + fade_ms options) * samplerate options * 2 ^ k
                < 2 ^ 53"
  shows "naive_frames options
         = Some (nat \<lfloor>(of_int \<lfloor>real_of_int (length_ms options) * samplerate options\<rfloor>
                        + real_of_int (fade_ms options) * samplerate options) / 1000\<rfloor>)"
proof -
  let ?L = "length_ms options" and ?F = "fade_ms options" and ?r = "samplerate options"
  let ?x1 = "real_of_int ?L * ?r" and ?x2 = "real_of_int ?F * ?r"
  let ?s = "real_of_int \<lfloor>?x1\<rfloor> + ?x2"
  have x1: "0 \<le> ?x1" using L r by simp
  have x2: "0 \<le> ?x2" using F r by simp
  have x1k: "0 \<le> ?x1 * 2 ^ k" and x2k: "0 \<le> ?x2 * 2 ^ k" using x1 x2 by simp_all
  have sum: "?x1 * 2 ^ k + ?x2 * 2 ^ k < 2 ^ 53" using range by (simp add: algebra_simps)
  have z1: "?x1 * 2 ^ k \<in> \<int>"
    using Ints_mult [OF Ints_of_int [of ?L] dy] by (simp add: mult.assoc)
  have z2: "?x2 * 2 ^ k \<in> \<int>"
    using Ints_mult [OF Ints_of_int [of ?F] dy] by (simp add: mult.assoc)
  have b1: "\<bar>?x1\<bar> * 2 ^ k < 2 ^ 53" using x1 x1k x2k sum by simp
  have b2: "\<bar>?x2\<bar> * 2 ^ k < 2 ^ 53" using x2 x1k x2k sum by simp
  have m1: "dmul (of_uint64 (to_uint64 ?L)) ?r = ?x1"
    using round_double_dyadic [OF z1 b1 k] L by (simp add: dmul_def of_uint64_int)
  have m2: "dmul (of_uint64 (to_uint64 ?F)) ?r = ?x2"
    using round_double_dyadic [OF z2 b2 k] F by (simp add: dmul_def of_uint64_int)
  have x1lt: "?x1 < 2 ^ 53" using le_times_pow2 [OF x1, of k] x2k sum by linarith
  have step1: "double_to_uint 64 ?x1 = Some (nat \<lfloor>?x1\<rfloor>)"
    using x1 x1lt by (intro double_to_uint_Some) simp_all
  have fl1: "0 \<le> \<lfloor>?x1\<rfloor>" using x1 by simp
  have n1: "real (nat \<lfloor>?x1\<rfloor>) = real_of_int \<lfloor>?x1\<rfloor>" using fl1 by simp
  have "real (nat \<lfloor>?x1\<rfloor>) < 2 ^ 53" unfolding n1 using x1lt by linarith
  then have "nat \<lfloor>?x1\<rfloor> < 2 ^ 53"
    by (metis of_nat_less_iff of_nat_numeral of_nat_power)
  then have u1: "of_uint64 (nat \<lfloor>?x1\<rfloor>) = real_of_int \<lfloor>?x1\<rfloor>"
    using n1 by (simp add: of_uint64_small)
  have s0: "0 \<le> ?s" using fl1 x2 by simp
  have sle: "?s \<le> ?x1 + ?x2" by simp
  have "?s * 2 ^ k \<le> (?x1 + ?x2) * 2 ^ k" using sle by (rule mult_right_mono) simp
  moreover have "(?x1 + ?x2) * 2 ^ k = ?x1 * 2 ^ k + ?x2 * 2 ^ k" by (rule distrib_right)
  ultimately have sk: "?s * 2 ^ k < 2 ^ 53" using sum by linarith
  have zs: "?s * 2 ^ k \<in> \<int>"
  proof -
    have "real_of_int \<lfloor>?x1\<rfloor> * 2 ^ k \<in> \<int>"
      by (intro Ints_mult Ints_of_int pow2_in_Ints)
    then have "real_of_int \<lfloor>?x1\<rfloor> * 2 ^ k + ?x2 * 2 ^ k \<in> \<int>" using z2 by (rule Ints_add)
    then show ?thesis by (simp add: algebra_simps)
  qed
  have bs: "\<bar>?s\<bar> * 2 ^ k < 2 ^ 53" using s0 sk by simp
  have a: "dadd (of_uint64 (nat \<lfloor>?x1\<rfloor>)) (dmul (of_uint64 (to_uint64 ?F)) ?r) = ?s"
    unfolding u1 m2 dadd_def by (rule round_double_dyadic [OF zs bs k])
  have slt: "?s < 2 ^ 53" using le_times_pow2 [OF s0, of k] sk by linarith
  have step2: "double_to_uint 64 ?s = Some (nat \<lfloor>?s\<rfloor>)"
    using s0 slt by (intro double_to_uint_Some) simp_all
  have "naive_frames options = Some (nat \<lfloor>?s\<rfloor> div 1000)"
    unfolding naive_frames_def m1 step1
    by (simp only: bind.bind_lunit a step2 kMillisPerSecond_def)
  then show ?thesis using floor_div_nat [OF s0] by simp
qed

text \<open>
  Above \<open>2 ^ 53\<close> the products round: 2147482999 ms without fade at 4200001 Hz give
  9019430743283 frames, one more than the exact quotient.
\<close>

lemma naive_frames_rounds:
  "naive_frames (default_options 2147482999 0 4200001) = Some 9019430743283
   \<and> nat \<lfloor>(2147482999 + 0) * 4200001 / 1000 :: real\<rfloor> = 9019430743282"
proof -
  have L: "of_uint64 (to_uint64 2147482999) = 2147482999"
    using of_uint64_int [of 2147482999] by simp
  have Z: "of_uint64 (to_uint64 0) = 0"
    using of_uint64_int [of 0] by simp
  have p: "dmul 2147482999 4200001 = 9019430743283000"
    using round_double_above [of 53 "2147482999 * 4200001"]
    by (simp add: dmul_def round_even_def Let_def)
  have c: "double_to_uint 64 9019430743283000 = Some 9019430743283000"
    by (simp add: double_to_uint_def)
  have b: "of_uint64 9019430743283000 = 9019430743283000"
    using round_double_above [of 53 "9019430743283000"]
    by (simp add: of_uint64_def round_even_def Let_def)
  have s: "dadd 9019430743283000 (dmul 0 4200001) = 9019430743283000"
    using b by (simp add: dadd_def dmul_def of_uint64_def)
  have "naive_frames (default_options 2147482999 0 4200001) = Some 9019430743283"
    by (simp add: naive_frames_def default_options_def L Z p c b s kMillisPerSecond_def)
  then show ?thesis by simp
qed

text \<open>
  C4, as the program has it. With \<^verbatim>\<open>--length_force\<close> the frame count is the candidate computed
  from \<^verbatim>\<open>length_ms\<close>, \<^verbatim>\<open>fade_ms\<close> and the sample rate, whatever the engine is and does; the
  engine state and the configuration are untouched. For \<^verbatim>\<open>length_ms\<close> and \<^verbatim>\<open>fade_ms\<close> that
  are not negative and a sample rate that is not negative, has \<open>k\<close> binary fraction digits
  and keeps \<open>(length_ms + fade_ms) * samplerate\<close> below \<open>2 ^ 53\<close> in units of \<open>2 ^ - k\<close> (so
  that no double operation rounds), the count is
  \<open>\<lfloor>(\<lfloor>length_ms * samplerate\<rfloor> + fade_ms * samplerate) / 1000\<rfloor>\<close>: the first product is
  truncated to whole frames before the fade product is added. When that product is a
  whole number the count is \<open>\<lfloor>(length_ms + fade_ms) * samplerate / 1000\<rfloor>\<close>.
\<close>

theorem forced_length_frames:
  assumes "lengthForce options"
  shows "resolve_frames X options cfg e
         = map_option (\<lambda>n. (n, cfg, e, [])) (naive_frames options)
         \<and> (0 \<le> length_ms options \<and> length_ms options < 2 ^ 31
              \<and> 0 \<le> fade_ms options \<and> fade_ms options < 2 ^ 31
              \<and> 0 \<le> samplerate options
              \<and> samplerate options * 2 ^ k \<in> \<int> \<and> k \<le> 1074
              \<and> real_of_int (length_ms options + fade_ms options) * samplerate options * 2 ^ k
                 < 2 ^ 53
            \<longrightarrow> resolve_frames X options cfg e
                = Some (nat \<lfloor>(of_int \<lfloor>real_of_int (length_ms options) * samplerate options\<rfloor>
                               + real_of_int (fade_ms options) * samplerate options) / 1000\<rfloor>,
                        cfg, e, [])
              \<and> (real_of_int (length_ms options) * samplerate options \<in> \<int> \<longrightarrow>
                   nat \<lfloor>(of_int \<lfloor>real_of_int (length_ms options) * samplerate options\<rfloor>
                             + real_of_int (fade_ms options) * samplerate options) / 1000\<rfloor>
                   = nat \<lfloor>real_of_int (length_ms options + fade_ms options)
                          * samplerate options / 1000\<rfloor>))"
proof -
  have general: "resolve_frames X options cfg e
      = map_option (\<lambda>n. (n, cfg, e, [])) (naive_frames options)"
    using assms by (cases "naive_frames options") (simp_all add: resolve_frames_def)
  have whole: "real_of_int (length_ms options) * samplerate options \<in> \<int> \<Longrightarrow>
      of_int \<lfloor>real_of_int (length_ms options) * samplerate options\<rfloor>
        + real_of_int (fade_ms options) * samplerate options
      = real_of_int (length_ms options + fade_ms options) * samplerate options"
    by (auto elim!: Ints_cases simp add: algebra_simps)
  show ?thesis
    using general naive_frames_exact [of options k] whole by simp
qed

text \<open>
  Two runs at sample rates with and without a fraction digit: 1000 ms without fade at
  44100 Hz gives 44100 frames, and 1 ms without fade at 44100.5 Hz gives 44 frames.
\<close>

theorem forced_length_frames_witness:
  "resolve_frames (sim_xgm 0 0 None) (default_options 1000 0 44100\<lparr>lengthForce := True\<rparr>)
     (initial_config (default_options 1000 0 44100)) 0
   = Some (44100, initial_config (default_options 1000 0 44100), 0, [])
   \<and> map_option fst (resolve_frames (sim_xgm 0 0 None)
        (default_options 1 0 44100.5\<lparr>lengthForce := True\<rparr>)
        (initial_config (default_options 1 0 44100.5)) 0)
   = Some 44"
  using forced_length_frames [of "default_options 1000 0 44100\<lparr>lengthForce := True\<rparr>"
      "sim_xgm 0 0 None" "initial_config (default_options 1000 0 44100)" 0 0, THEN conjunct2]
    forced_length_frames [of "default_options 1 0 44100.5\<lparr>lengthForce := True\<rparr>"
      "sim_xgm 0 0 None" "initial_config (default_options 1 0 44100.5)" 0 1, THEN conjunct2]
  by (simp add: default_options_def)

text \<open>
  C4 as the claim states it fails: \<^verbatim>\<open>frames\<close> is truncated to an integer after the first
  product already, so with 1 ms, a fade of 1999 ms and 44100.5 Hz the program gets 88200
  frames where the formula gives 88201. Every double in this run is exact.
\<close>

theorem forced_length_frames_truncates:
  "map_option fst (resolve_frames (sim_xgm 0 0 None)
       (default_options 1 1999 44100.5\<lparr>lengthForce := True\<rparr>)
       (initial_config (default_options 1 1999 44100.5)) 0)
     = Some 88200
   \<and> nat \<lfloor>(1 + 1999) * 44100.5 / 1000 :: real\<rfloor> = 88201"
  using naive_frames_exact [of "default_options 1 1999 44100.5\<lparr>lengthForce := True\<rparr>" 1]
  by (simp add: resolve_frames_def default_options_def)



text \<open>
  At a sample rate that is not a short binary fraction the arithmetic rounds: with the
  double nearest to 44100.1, 5000 rendered frames and a fade of 10000 ms the product
  rounds to 441001000 and the count is 446001, where \<open>K + \<lfloor>T * samplerate / 1000\<rfloor>\<close> over
  the real numbers is 446000.
\<close>

lemma detected_sum_rounds:
  "double_to_uint 64
     (dadd (of_uint64 5000)
        (ddiv (dmul (of_uint64 (to_uint64 10000)) (round_double 44100.1))
           (of_uint64 kMillisPerSecond)))
   = Some 446001
   \<and> 5000 + nat \<lfloor>10000 * round_double 44100.1 / 1000\<rfloor> = 446000"
proof -
  have r: "round_double 44100.1 = 6061071592010547 / 2 ^ 37"
    using round_double_below [of 15 "44100.1"] by (simp add: round_even_def Let_def)
  have T: "of_uint64 (to_uint64 10000) = 10000"
    using of_uint64_int [of 10000] by simp
  have K: "of_uint64 5000 = 5000" and M: "of_uint64 kMillisPerSecond = 1000"
    by (simp_all add: of_uint64_small kMillisPerSecond_def)
  have p: "dmul 10000 (6061071592010547 / 2 ^ 37) = 441001000"
    using round_double_below [of 28 "10000 * (6061071592010547 / 2 ^ 37)"]
    by (simp add: dmul_def round_even_def Let_def)
  have q: "ddiv 441001000 1000 = 441001"
    by (simp add: ddiv_def round_double_numeral)
  have s: "dadd 5000 441001 = 446001"
    by (simp add: dadd_def round_double_numeral)
  have e: "dadd (of_uint64 5000)
        (ddiv (dmul (of_uint64 (to_uint64 10000)) (round_double 44100.1))
           (of_uint64 kMillisPerSecond)) = 446001"
    by (simp only: r T K M p q s)
  have f: "5000 + nat \<lfloor>10000 * round_double 44100.1 / 1000\<rfloor> = 446000"
    by (simp add: r)
  show ?thesis unfolding e using f by (simp add: double_to_uint_def)
qed



section \<open>Length, fade and track\<close>

text \<open>
  C8, as the program has it. Outside playlist mode, \<^verbatim>\<open>length_ms\<close> and \<^verbatim>\<open>fade_ms\<close> follow
  the precedence of the specification: the track's embedded value when it is not
  negative, else the global value when it is not negative, else the value the options
  hold. In playlist mode the track's embedded value is not consulted. When no value
  applies, a warning is printed and the options keep their value: for the length only
  without \<^verbatim>\<open>--length_force\<close>, for the fade in every case.
\<close>

theorem resolve_times_precedence:
  "length_ms (fst (resolve_times nsf entry options))
     = spec_precedence (if playlist_mode nsf then None else present (time entry))
         (present (time_in_ms nsf)) (length_ms options)
   \<and> fade_ms (fst (resolve_times nsf entry options))
     = spec_precedence (if playlist_mode nsf then None else present (fade entry))
         (present (fade_in_ms nsf)) (fade_ms options)
   \<and> snd (resolve_times nsf entry options)
     = (if (playlist_mode nsf \<or> time entry < 0) \<and> time_in_ms nsf < 0 \<and> \<not> lengthForce options
        then [LengthWarning (length_ms options)] else [])
       @ (if (playlist_mode nsf \<or> fade entry < 0) \<and> fade_in_ms nsf < 0
          then [FadeWarning (fade_ms options)] else [])"
  by (simp add: resolve_times_def resolve_length_def resolve_fade_def spec_precedence_def
      present_def)

text \<open>A track with an embedded length of 5000 ms, a global length of 7000 ms, no fade.\<close>

theorem resolve_times_precedence_witness:
  "length_ms (fst (resolve_times (sim_nsf\<lparr>time_in_ms := 7000\<rparr>)
       \<lparr>tlbl = [], time = 5000, fade = - 1\<rparr> (default_options 300000 5000 48000))) = 5000
   \<and> fade_ms (fst (resolve_times (sim_nsf\<lparr>time_in_ms := 7000\<rparr>)
       \<lparr>tlbl = [], time = 5000, fade = - 1\<rparr> (default_options 300000 5000 48000))) = 5000
   \<and> snd (resolve_times (sim_nsf\<lparr>time_in_ms := 7000\<rparr>)
       \<lparr>tlbl = [], time = 5000, fade = - 1\<rparr> (default_options 300000 5000 48000))
       = [FadeWarning 5000]"
  using resolve_times_precedence [of "sim_nsf\<lparr>time_in_ms := 7000\<rparr>"
      "\<lparr>tlbl = [], time = 5000, fade = - 1\<rparr>" "default_options 300000 5000 48000"]
  by (simp add: sim_nsf_def default_options_def spec_precedence_def present_def)

text \<open>
  C8 as the claim states it fails: in playlist mode a track with an embedded length of
  5000 ms and a global length of 7000 ms is given 7000 ms, where the stated precedence
  gives 5000 ms.
\<close>

theorem playlist_mode_skips_track_time:
  "length_ms (fst (resolve_times (sim_nsf\<lparr>playlist_mode := True, time_in_ms := 7000\<rparr>)
       \<lparr>tlbl = [], time = 5000, fade = - 1\<rparr> (default_options 300000 5000 48000))) = 7000
   \<and> spec_precedence (present 5000) (present 7000) 300000 = 5000"
  by (simp add: resolve_times_def resolve_length_def resolve_fade_def spec_precedence_def
      present_def sim_nsf_def default_options_def)

text \<open>
  C7, as the program has it. When the options parse, an input and an output path are
  given, the file loads, the source is not in playlist mode and the track number is below
  1, the run prints the track-number error and ends with \<^verbatim>\<open>EXIT_FAILURE\<close>; the external
  objects are in the state \<^verbatim>\<open>LoadFile\<close> left them in (no call to the player has been
  made) and no output file has been opened.
\<close>

theorem track_below_one:
  assumes "ParseOptions opts
             (default_options (default_playtime X e) (default_fadetime X e) (DEFAULT_RATE X))
           = Inr options"
    and "length argv = 2"
    and "0 \<le> channels options"
    and "LoadFile X (argv ! 0)
           (SetDefaults X (length_ms options) (fade_ms options) (default_loopnum X e) e)
         = (Some nsf, e')"
    and "\<not> playlist_mode nsf"
    and "track options \<le> 0"
  shows "main X fopen opts argv e
         = \<lparr> status = Exit EXIT_FAILURE, err = [TrackNumberError], out = [], state = e',
             outfile = None \<rparr>"
  using assms
  by (simp add: main_def Let_def convert_def resolve_track_def stop_def)

text \<open>Track 0 with the simulated engine and file.\<close>

theorem track_below_one_witness:
  "main (sim_xgm 0 0 (Some sim_nsf)) (sim_fopen 1000) [Opt_t 0] [''in.nsf'', ''out.wav''] 0
     = \<lparr> status = Exit EXIT_FAILURE, err = [TrackNumberError], out = [], state = 0,
         outfile = None \<rparr>"
  using track_below_one [of "[Opt_t 0]" "sim_xgm 0 0 (Some sim_nsf)" 0
      "default_options 300000 5000 48000\<lparr>track := 0\<rparr>" "[''in.nsf'', ''out.wav'']"
      sim_nsf 0 "sim_fopen 1000"]
  by (simp add: sim_xgm_def sim_nsf_def default_options_def)

text \<open>
  C7 as the claim states it fails: with track 0 the exit code is 1, which is not
  \<^verbatim>\<open>EX_USAGE\<close>; and the input file is loaded before the track number is looked at, as
  the same options show on a file that does not load.
\<close>

theorem track_below_one_not_usage:
  "status (main (sim_xgm 0 0 (Some sim_nsf)) (sim_fopen 1000) [Opt_t 0]
             [''in.nsf'', ''out.wav''] 0) = Exit 1
   \<and> Exit 1 \<noteq> Exit EX_USAGE
   \<and> err (main (sim_xgm 0 0 None) (sim_fopen 1000) [Opt_t 0] [''in.nsf'', ''out.wav''] 0)
       = [LoadError]"
  by (simp add: main_def Let_def convert_def resolve_track_def stop_def sim_xgm_def sim_nsf_def
      default_options_def EXIT_FAILURE_def EX_USAGE_def)

section \<open>Short writes\<close>

lemma render_loop_done: "render_loop X chans 0 buf pac f e outs = Some (f, e, outs)"
  by (simp add: render_loop.simps)

lemma render_loop_step:
  assumes "frames \<noteq> 0"
    and "Render X buf (min frames kFramesToBuffer) e = (buf1, e1)"
    and "length buf1 = length buf"
    and "pack_frames pac buf1 (min frames kFramesToBuffer) chans = Some pac1"
    and "write_frames f pac1 (min frames kFramesToBuffer) chans = (ok, f1)"
  shows "render_loop X chans frames buf pac f e outs
         = render_loop X chans (frames - min frames kFramesToBuffer) buf1 pac1 f1 e1
             (outs @ [ProgressLine ((frames + total_render X e) mod 2 ^ 64) frames])"
  using assms by (subst render_loop.simps) (simp add: Let_def)

lemma write_frames_short:
  assumes "0 < chans" "chans < 2 ^ 63" "0 < frameCount"
    and "room f < 2 * nat chans * frameCount"
  shows "fst (write_frames f d frameCount chans) = 0"
proof -
  have sz: "(2 * to_uint64 chans) mod 2 ^ 64 = 2 * nat chans"
    using assms(1,2) by (simp add: to_uint64_def nat_mult_distrib)
  have "min (2 * nat chans * frameCount) (room f) div (2 * nat chans) < frameCount"
    using assms by (simp add: min_def less_mult_imp_div_less mult.commute)
  then show ?thesis
    unfolding write_frames_def fwrite_def Let_def sz using assms(1) by simp
qed

lemma write_wav_header_written:
  assumes "0 \<le> channels options"
    and "double_to_uint 32 (samplerate options) \<noteq> None"
    and "double_to_uint 32 (dmul (dmul (samplerate options) (of_int (channels options))) 2)
         \<noteq> None"
    and "44 \<le> room f"
  shows "\<exists>hdr. write_wav_header f totalFrames options
                 = Some (1, f\<lparr>written := written f @ hdr, room := room f - 44\<rparr>)
               \<and> length hdr = 44"
  using write_wav_header_fit [OF assms] by blast

text \<open>
  C3 at a file that accepts 45 bytes, for a forced length of 2 ms at 1000 Hz (two mono
  frames): the header takes 44 bytes, the payload write of 4 bytes stores one byte and
  \<^verbatim>\<open>write_frames\<close> returns 0 (lemma \<open>write_frames_short\<close>), yet the run prints
  nothing on \<^verbatim>\<open>stderr\<close> and ends with \<^verbatim>\<open>EXIT_SUCCESS\<close>.
\<close>

theorem short_write_exits_success:
  "status (main (sim_xgm 0 0 (Some (sim_nsf\<lparr>time_in_ms := 2, fade_in_ms := 0\<rparr>)))
             (sim_fopen 45) [Opt_y, Opt_s 1000] [''in.nsf'', ''out.wav''] 0) = Exit EXIT_SUCCESS
   \<and> err (main (sim_xgm 0 0 (Some (sim_nsf\<lparr>time_in_ms := 2, fade_in_ms := 0\<rparr>)))
             (sim_fopen 45) [Opt_y, Opt_s 1000] [''in.nsf'', ''out.wav''] 0) = []
   \<and> map_option (\<lambda>f. (length (written f), room f))
        (outfile (main (sim_xgm 0 0 (Some (sim_nsf\<lparr>time_in_ms := 2, fade_in_ms := 0\<rparr>)))
             (sim_fopen 45) [Opt_y, Opt_s 1000] [''in.nsf'', ''out.wav''] 0)) = Some (45, 0)"
proof -
  let ?X = "sim_xgm 0 0 (Some (sim_nsf\<lparr>time_in_ms := 2, fade_in_ms := 0\<rparr>))"
  let ?o = "default_options 2 0 1000\<lparr>lengthForce := True\<rparr>"
  let ?buf = "replicate 4096 (0 :: int16)"
  let ?pac = "replicate 8192 (0 :: byte)"
  obtain hdr where hdr: "write_wav_header \<lparr>written = [], room = 45\<rparr> 2 ?o
        = Some (1, \<lparr>written = hdr, room = 1\<rparr>)" and len: "length hdr = 44"
    using write_wav_header_written [of ?o "\<lparr>written = [], room = 45\<rparr>" 2]
    by (auto simp add: default_options_def double_to_uint_def dmul_def round_double_numeral)
  have frames: "naive_frames ?o = Some 2"
    using naive_frames_exact [of ?o 0] by (simp add: default_options_def)
  have pack: "pack_frames ?pac ?buf 2 1 = Some (le_bytes (take 2 ?buf) @ drop 4 ?pac)"
    using pack_frames_eq [of 1 2 ?buf ?pac] by simp
  let ?pac1 = "le_bytes (take 2 ?buf) @ drop 4 ?pac"
  have wf: "write_frames \<lparr>written = hdr, room = 1\<rparr> ?pac1 2 1
      = (0, \<lparr>written = hdr @ take 1 ?pac1, room = 0\<rparr>)"
    by (simp add: write_frames_def fwrite_def Let_def to_uint64_def)
  have loop: "render_loop ?X 1 2 ?buf ?pac \<lparr>written = hdr, room = 1\<rparr> 0 outs
      = Some (\<lparr>written = hdr @ take 1 ?pac1, room = 0\<rparr>, 0,
              outs @ [ProgressLine 2 2])" for outs
    using render_loop_step [of 2 ?X ?buf 0 ?buf 0 ?pac 1 ?pac1 "\<lparr>written = hdr, room = 1\<rparr>" 0
        "\<lparr>written = hdr @ take 1 ?pac1, room = 0\<rparr>" outs] pack wf
    by (simp add: kFramesToBuffer_def sim_xgm_def render_loop_done)
  have "main ?X (sim_fopen 45) [Opt_y, Opt_s 1000] [''in.nsf'', ''out.wav''] 0
      = \<lparr> status = Exit EXIT_SUCCESS, err = [],
          out = [TrackLine 1, LengthLine 2, FadeLine 0, ProgressLine 2 2], state = 0,
          outfile = Some \<lparr>written = hdr @ take 1 ?pac1, room = 0\<rparr> \<rparr>"
    using hdr frames loop
    by (simp add: main_def convert_def Let_def sim_xgm_def sim_nsf_def sim_fopen_def
        default_options_def resolve_track_def nsfe_index_def peek_def resolve_times_def
        resolve_length_def resolve_fade_def resolve_frames_def stop_def kFramesToBuffer_def)
  then show ?thesis using len by (simp add: le_bytes_def)
qed

end
